theory Spec2Isabelle
  imports Main "HOL-Library.AList"
begin

section \<open>Python string helpers\<close>

text \<open>
  Python strings are modelled as \<open>string\<close>, and the model covers ASCII text only, which
  \<open>s.isascii()\<close> recognises: the functions below are exact on ASCII text, and what they
  do to a character from 128 on carries no meaning. \<open>s.replace(old, new)\<close> is only ever
  called by the sources with a one-character \<open>old\<close>, so it is a character-wise
  substitution.
\<close>

definition isascii :: "string \<Rightarrow> bool" where
  "isascii s = list_all (\<lambda>c. (of_char c :: nat) < 128) s"

definition replace_char :: "char \<Rightarrow> string \<Rightarrow> string \<Rightarrow> string" where
  "replace_char old new s = concat (map (\<lambda>x. if x = old then new else [x]) s)"

definition is_upper :: "char \<Rightarrow> bool" where
  "is_upper c = (65 \<le> (of_char c :: nat) \<and> (of_char c :: nat) \<le> 90)"

definition is_lower :: "char \<Rightarrow> bool" where
  "is_lower c = (97 \<le> (of_char c :: nat) \<and> (of_char c :: nat) \<le> 122)"

definition lower_char :: "char \<Rightarrow> char" where
  "lower_char c = (if is_upper c then char_of ((of_char c :: nat) + 32) else c)"

definition upper_char :: "char \<Rightarrow> char" where
  "upper_char c = (if is_lower c then char_of ((of_char c :: nat) - 32) else c)"

text \<open>
  \<open>s.lower()\<close> on ASCII text: the letters A to Z are lower-cased one by one. On other
  text Python's \<open>lower\<close> is not a character-wise map (a capital sigma becomes a final
  or a medial small sigma, depending on the characters around it), which is why the
  model stops at ASCII.
\<close>

definition lower :: "string \<Rightarrow> string" where
  "lower s = map lower_char s"

text \<open>\<open>sub in s\<close> for strings: \<open>sub\<close> occurs as a contiguous substring of \<open>s\<close>.\<close>

fun starts_with :: "string \<Rightarrow> string \<Rightarrow> bool" where
  "starts_with s [] = True"
| "starts_with [] (p # ps) = False"
| "starts_with (c # cs) (p # ps) = (c = p \<and> starts_with cs ps)"

fun contains :: "string \<Rightarrow> string \<Rightarrow> bool" where
  "contains [] sub = (sub = [])"
| "contains (c # cs) sub = (starts_with (c # cs) sub \<or> contains cs sub)"

section \<open>The retry decorator (01_cinematic_preroll.py, retry_on_errors)\<close>

text \<open>
  The wrapped callable is a sequence of outcomes: \<open>func k\<close> is what call number \<open>k\<close>
  (counted from 0) does, either returning a value or raising an exception whose
  \<open>str(e)\<close> is the carried message.
\<close>

datatype 'a outcome = Ok 'a | Fail string

datatype 'a wrapped = Returned 'a | Raised string | ReturnedNone

text \<open>The test of the \<open>except\<close> branch on \<open>error_str\<close>.\<close>

definition transient :: "string \<Rightarrow> bool" where
  "transient error_str =
     (contains error_str ''500'' \<or> contains error_str ''503'' \<or>
      contains error_str ''Internal Server Error'' \<or>
      contains error_str ''Service Unavailable'')"

text \<open>
  The \<open>while retries < max_retries\<close> loop. The result carries what the wrapper does
  (return, raise, or fall out of the loop and return \<open>None\<close>), the number of calls made
  to the wrapped function, and the arguments of the \<open>time.sleep\<close> calls in order.
  As \<open>retries\<close> is incremented exactly when a call has failed and the loop goes on, the
  next call is call number \<open>retries\<close>.
\<close>

function retry_loop ::
  "int \<Rightarrow> int \<Rightarrow> (nat \<Rightarrow> 'a outcome) \<Rightarrow> nat \<Rightarrow> int list \<Rightarrow> 'a wrapped \<times> nat \<times> int list"
where
  "retry_loop max_retries backoff_factor func retries sleeps =
     (if int retries < max_retries then
        (case func retries of
           Ok v \<Rightarrow> (Returned v, retries + 1, sleeps)
         | Fail e \<Rightarrow>
             if transient e then
               (if max_retries \<le> int (retries + 1) then (Raised e, retries + 1, sleeps)
                else retry_loop max_retries backoff_factor func (retries + 1)
                       (sleeps @ [backoff_factor ^ (retries + 1)]))
             else (Raised e, retries + 1, sleeps))
      else (ReturnedNone, retries, sleeps))"
  by pat_completeness auto
termination
  by (relation "measure (\<lambda>(m, b, f, r, s). nat (m - int r))") auto

definition retry_on_errors ::
  "int \<Rightarrow> int \<Rightarrow> (nat \<Rightarrow> 'a outcome) \<Rightarrow> 'a wrapped \<times> nat \<times> int list" where
  "retry_on_errors max_retries backoff_factor func =
     retry_loop max_retries backoff_factor func 0 []"

text \<open>A service that answers every call with the same overload error.\<close>

definition always_unavailable :: "nat \<Rightarrow> unit outcome" where
  "always_unavailable k = Fail ''503 Service Unavailable''"

lemma retry_loop_skip:
  assumes "\<forall>i. r \<le> i \<and> i < k \<longrightarrow> (\<exists>e. func i = Fail e \<and> transient e)"
    and "int k < m" and "r \<le> k"
  shows "retry_loop m b func r s = retry_loop m b func k (s @ map (\<lambda>i. b ^ i) [r + 1..<k + 1])"
  using assms(3,1,2)
proof (induction k rule: dec_induct)
  case base
  then show ?case by simp
next
  case (step n)
  from step.prems obtain e where e: "func n = Fail e" "transient e"
    using step.hyps by auto
  have "retry_loop m b func r s = retry_loop m b func n (s @ map (\<lambda>i. b ^ i) [r + 1..<n + 1])"
    using step by auto
  also have "\<dots> = retry_loop m b func (Suc n) ((s @ map (\<lambda>i. b ^ i) [r + 1..<n + 1]) @ [b ^ (n + 1)])"
    using e step.prems(2) by (subst retry_loop.simps) simp
  also have "(s @ map (\<lambda>i. b ^ i) [r + 1..<n + 1]) @ [b ^ (n + 1)] = s @ map (\<lambda>i. b ^ i) [r + 1..<Suc n + 1]"
    using step.hyps by simp
  finally show ?case .
qed

text \<open>
  Claim C6, as the code has it. Let the first \<open>k\<close> calls fail with transient errors,
  with \<open>k\<close> below the configured maximum. Then call number \<open>k\<close> is made, the sleeps so
  far are \<open>backoff_factor ^ 1, ..., backoff_factor ^ k\<close> (the sleep before call number
  \<open>j\<close> lasts \<open>backoff_factor ^ j\<close> seconds), and: if that call returns, the wrapper
  returns its value; if it fails with an error that is not transient, the wrapper raises
  that error at once, with no further call and no further sleep; if it fails with a
  transient error and it was the last allowed call (\<open>max_retries = k + 1\<close>), the wrapper
  re-raises that same transient error, unchanged, after \<open>max_retries\<close> calls in all.
\<close>

theorem retry_on_errors_behaviour:
  assumes "\<forall>i<k. \<exists>e. func i = Fail e \<and> transient e" and "int k < max_retries"
  shows "(func k = Ok v \<longrightarrow>
            retry_on_errors max_retries b func = (Returned v, k + 1, map (\<lambda>i. b ^ i) [1..<k + 1])) \<and>
         (func k = Fail e \<and> \<not> transient e \<longrightarrow>
            retry_on_errors max_retries b func = (Raised e, k + 1, map (\<lambda>i. b ^ i) [1..<k + 1])) \<and>
         (func k = Fail e \<and> transient e \<and> max_retries = int k + 1 \<longrightarrow>
            retry_on_errors max_retries b func = (Raised e, k + 1, map (\<lambda>i. b ^ i) [1..<k + 1]))"
proof -
  have skip: "retry_on_errors max_retries b func
      = retry_loop max_retries b func k (map (\<lambda>i. b ^ i) [1..<k + 1])"
    unfolding retry_on_errors_def
    using retry_loop_skip [of 0 k func max_retries b "[]"] assms by simp
  show ?thesis
    unfolding skip using assms(2) by (subst retry_loop.simps, simp)+
qed

text \<open>
  The theorem at a concrete service: three calls allowed, every call answered with a
  503; the third failure is re-raised after sleeps of 2 and 4 seconds.
\<close>

theorem retry_on_errors_behaviour_witness:
  "retry_on_errors 3 2 always_unavailable = (Raised ''503 Service Unavailable'', 2 + 1, [2, 4])"
proof -
  have pre: "\<forall>i<2. \<exists>e. always_unavailable i = Fail e \<and> transient e"
    by (simp add: always_unavailable_def transient_def)
  have tr: "transient ''503 Service Unavailable''"
    by (simp add: transient_def)
  have "map (\<lambda>i. (2::int) ^ i) [1..<2 + 1] = [2, 4]"
    by code_simp
  then show ?thesis
    using retry_on_errors_behaviour [of 2 always_unavailable 3 "()" 2 "''503 Service Unavailable''", OF pre] tr
    by (simp add: always_unavailable_def)
qed

text \<open>
  Against claim C6 as stated: after the retries are exhausted the wrapper raises the
  very error the service raised last, and that error is classified transient; no
  separate terminal error exists.
\<close>

theorem retry_exhausted_counterexample:
  "retry_on_errors 3 2 always_unavailable = (Raised ''503 Service Unavailable'', 3, [2, 4]) \<and>
   always_unavailable 2 = Fail ''503 Service Unavailable'' \<and>
   transient ''503 Service Unavailable''"
  by code_simp

section \<open>Storage keys of reference identities (generate_single_reference)\<close>

text \<open>
  \<open>name.replace("/", "-").replace("'", " ").replace('"', '').replace(" ", "_").lower()\<close>
\<close>

definition safe_name :: "string \<Rightarrow> string" where
  "safe_name name =
     lower (replace_char (CHR '' '') ''_''
              (replace_char (CHR 0x22) []
                 (replace_char (CHR 0x27) '' ''
                    (replace_char (CHR ''/'') ''-'' name))))"

lemma lower_char_eq_nonletter:
  assumes "\<not> is_upper c" and "\<not> is_lower c"
  shows "lower_char x = c \<longleftrightarrow> x = c"
proof (cases "is_upper x")
  case True
  then have "of_char (lower_char x) = (of_char x :: nat) + 32"
    by (simp add: lower_char_def is_upper_def)
  then have "is_lower (lower_char x)"
    using True by (simp add: is_lower_def is_upper_def)
  then show ?thesis
    using assms True by auto
next
  case False
  then show ?thesis by (simp add: lower_char_def)
qed

lemma lower_replace_char:
  assumes "\<not> is_upper c" and "\<not> is_lower c"
  shows "lower (replace_char c new s) = replace_char c (lower new) (lower s)"
  using lower_char_eq_nonletter [OF assms]
  by (induction s) (auto simp: lower_def replace_char_def)

lemma safe_name_via_lower:
  "safe_name name =
     replace_char (CHR '' '') ''_''
       (replace_char (CHR 0x22) []
          (replace_char (CHR 0x27) '' ''
             (replace_char (CHR ''/'') ''-'' (lower name))))"
proof -
  have nl: "\<not> is_upper (CHR '' '')" "\<not> is_lower (CHR '' '')"
    "\<not> is_upper (CHR 0x22)" "\<not> is_lower (CHR 0x22)"
    "\<not> is_upper (CHR 0x27)" "\<not> is_lower (CHR 0x27)"
    "\<not> is_upper (CHR ''/'')" "\<not> is_lower (CHR ''/'')"
    by (simp_all add: is_upper_def is_lower_def)
  have lw: "lower ''_'' = ''_''" "lower [] = []" "lower '' '' = '' ''" "lower ''-'' = ''-''"
    by (simp_all add: lower_def lower_char_def is_upper_def)
  show ?thesis
    unfolding safe_name_def by (simp add: lower_replace_char nl lw)
qed

text \<open>
  Claim C8, as the code has it: two ASCII source names that differ only in letter case
  (they are equal once lower-cased) get the same storage key, hence the same
  description document and the same image asset. Spacing is not normalised: every
  space becomes an underscore and nothing is trimmed. Nothing is said of names outside
  ASCII, where lower-casing after the replacements can tell apart two names that are
  equal once lower-cased.
\<close>

theorem safe_name_case_variants:
  assumes "isascii a" and "isascii b" and "lower a = lower b"
  shows "safe_name a = safe_name b"
  using assms(3) by (simp add: safe_name_via_lower)

theorem safe_name_case_variants_witness:
  "isascii ''Eckels'' \<and> isascii ''eckels'' \<and> lower ''Eckels'' = lower ''eckels'' \<and>
   safe_name ''Eckels'' = safe_name ''eckels'' \<and> safe_name ''Eckels'' = ''eckels''"
proof -
  have a: "isascii ''Eckels''" and b: "isascii ''eckels''"
    by code_simp+
  have h: "lower ''Eckels'' = lower ''eckels''"
    by code_simp
  have k: "safe_name ''Eckels'' = ''eckels''"
    by code_simp
  show ?thesis
    using a b h k safe_name_case_variants [OF a b h] by simp
qed

text \<open>
  Against claim C8 as stated: the spec's own pair, "Eckels" and "eckels " (trailing
  space), is sent to two different storage keys.
\<close>

theorem safe_name_spacing_counterexample:
  "safe_name ''Eckels'' = ''eckels'' \<and> safe_name ''eckels '' = ''eckels_'' \<and>
   safe_name ''Eckels'' \<noteq> safe_name ''eckels ''"
  by code_simp

section \<open>Scenes and panels (SCENE_SCHEMA)\<close>

text \<open>
  A panel and a scene carry the fields that \<open>SCENE_SCHEMA\<close> lists as required. The key
  \<open>motion_prompt_original\<close> is no part of the schema: it is absent (\<open>None\<close>) until the
  reversal pass stores it. \<open>is_reversed\<close> is always present when the reversal pass runs,
  because \<open>refine_single_scene\<close> sets its default first.
\<close>

record panel =
  panel_index :: int
  visual_start :: string
  visual_end :: string
  motion_prompt :: string
  motion_prompt_original :: "string option"
  is_reversed :: bool
  motion_prompt_reversed :: string
  lights_and_camera :: string
  dialogue :: string
  caption :: string
  duration :: int
  references :: "string list"

record scene =
  scene_id :: int
  location :: string
  pre_action_description :: string
  panels :: "panel list"

datatype py_error = IndexError | KeyError | TypeError | ZeroDivisionError

section \<open>The reversal sub-pass (apply_reversal_pass)\<close>

text \<open>
  \<open>generate_json_with_schema\<close> catches every exception of the service call and of
  \<open>json.loads\<close> and returns the empty dict instead, which is falsy like the empty list.
  The reversal service answers with a list of \<open>(panel_index, motion_prompt_reversed)\<close>
  items (\<open>REVERSAL_SCHEMA\<close>).
\<close>

definition generate_json_with_schema :: "'a list outcome \<Rightarrow> 'a list" where
  "generate_json_with_schema response = (case response of Ok v \<Rightarrow> v | Fail e \<Rightarrow> [])"

text \<open>
  \<open>_call_api\<close>: the schema call under \<open>retry_on_errors(max_retries=3, backoff_factor=2)\<close>.
  \<open>api k\<close> is the raw answer of the service to request number \<open>k\<close>.
\<close>

definition call_api :: "(nat \<Rightarrow> 'a list outcome) \<Rightarrow> 'a list" where
  "call_api api =
     (case retry_on_errors 3 2 (\<lambda>k. Ok (generate_json_with_schema (api k))) of
        (Returned v, n, sleeps) \<Rightarrow> v
      | (Raised e, n, sleeps) \<Rightarrow> []
      | (ReturnedNone, n, sleeps) \<Rightarrow> [])"

text \<open>
  \<open>{item['panel_index']: item['motion_prompt_reversed'] for item in result}\<close>: a later
  item with the same index replaces an earlier one.
\<close>

definition reversed_map :: "(int \<times> string) list \<Rightarrow> (int \<rightharpoonup> string)" where
  "reversed_map result = fold (\<lambda>(k, v) m. m(k \<mapsto> v)) result Map.empty"

text \<open>The body of the loop over the panels of the scene.\<close>

definition reverse_panel :: "(int \<rightharpoonup> string) \<Rightarrow> panel \<Rightarrow> panel" where
  "reverse_panel rmap p =
     (if is_reversed p then
        (case rmap (panel_index p) of
           Some reversed \<Rightarrow>
             p\<lparr>motion_prompt_original := Some (motion_prompt p),
               motion_prompt := reversed,
               visual_start := visual_end p,
               visual_end := visual_start p\<rparr>
         | None \<Rightarrow> p)
      else p)"

text \<open>
  The service is given the flagged panels (they are the prompt), so its answers are a
  function of them.
\<close>

definition apply_reversal_pass ::
  "(panel list \<Rightarrow> nat \<Rightarrow> (int \<times> string) list outcome) \<Rightarrow> scene \<Rightarrow> scene" where
  "apply_reversal_pass api scene =
     (let reversed_panels = filter is_reversed (panels scene) in
      if reversed_panels = [] then scene
      else
        (let result = call_api (api reversed_panels) in
         if result \<noteq> [] then
           scene\<lparr>panels := map (reverse_panel (reversed_map result)) (panels scene)\<rparr>
         else scene))"

text \<open>Scenario B of the specification: a stub service and a two-panel scene.\<close>

definition stub_reversal :: "panel list \<Rightarrow> nat \<Rightarrow> (int \<times> string) list outcome" where
  "stub_reversal ps k = Ok [(2, ''fog forms over 3s'')]"

definition panel_one :: panel where
  "panel_one = \<lparr>panel_index = 1, visual_start = ''street'', visual_end = ''door'',
     motion_prompt = ''walks'', motion_prompt_original = None, is_reversed = False,
     motion_prompt_reversed = [], lights_and_camera = [], dialogue = [], caption = [],
     duration = 7, references = []\<rparr>"

definition panel_two :: panel where
  "panel_two = \<lparr>panel_index = 2, visual_start = ''fog'', visual_end = ''man revealed'',
     motion_prompt = ''fog clears'', motion_prompt_original = None, is_reversed = True,
     motion_prompt_reversed = [], lights_and_camera = [], dialogue = [], caption = [],
     duration = 7, references = []\<rparr>"

definition scenario_b :: scene where
  "scenario_b = \<lparr>scene_id = 1, location = ''alley'', pre_action_description = [],
     panels = [panel_one, panel_two]\<rparr>"

lemma call_api_first: "call_api api = generate_json_with_schema (api 0)"
  unfolding call_api_def retry_on_errors_def
  by (subst retry_loop.simps) simp

lemma reversed_map_fold:
  "fold (\<lambda>(k, v) m. m(k \<mapsto> v)) result m0 k =
     (case map_of (rev result) k of Some v \<Rightarrow> Some v | None \<Rightarrow> m0 k)"
  by (induction result arbitrary: m0) (auto split: option.splits)

lemma reversed_map_eq: "reversed_map result = map_of (rev result)"
  unfolding reversed_map_def
  by (rule ext) (simp add: reversed_map_fold split: option.splits)

lemma reversed_map_dom: "dom (reversed_map result) = fst ` set result"
  by (simp add: reversed_map_eq dom_map_of_conv_image_fst)

lemma reversed_map_in: "reversed_map result k = Some m \<Longrightarrow> (k, m) \<in> set result"
  unfolding reversed_map_eq by (drule map_of_SomeD) simp

text \<open>
  Claim C1. Let \<open>p\<close> be a panel of the scene flagged \<open>is_reversed\<close>, \<open>q\<close> the panel at
  the same place after the pass, and \<open>result\<close> the list the service returned for the
  flagged panels. The pass keeps the number of panels. If the index of \<open>p\<close> occurs in
  \<open>result\<close>, then \<open>q\<close> has \<open>visual_start\<close> and \<open>visual_end\<close> of \<open>p\<close> swapped, its
  \<open>motion_prompt_original\<close> is the \<open>motion_prompt\<close> of \<open>p\<close>, and its \<open>motion_prompt\<close> is
  a text \<open>m\<close> returned for that index (the one the index map holds). If the index does
  not occur in \<open>result\<close>, the panel is unchanged.
\<close>

theorem apply_reversal_pass_fields:
  assumes "i < length (panels scene)"
    and "is_reversed (panels scene ! i)"
    and "result = call_api (api (filter is_reversed (panels scene)))"
    and "p = panels scene ! i"
    and "q = panels (apply_reversal_pass api scene) ! i"
  shows "length (panels (apply_reversal_pass api scene)) = length (panels scene) \<and>
         (panel_index p \<in> fst ` set result \<longrightarrow>
            (\<exists>m. (panel_index p, m) \<in> set result \<and>
                 reversed_map result (panel_index p) = Some m \<and>
                 visual_start q = visual_end p \<and>
                 visual_end q = visual_start p \<and>
                 motion_prompt_original q = Some (motion_prompt p) \<and>
                 motion_prompt q = m)) \<and>
         (panel_index p \<notin> fst ` set result \<longrightarrow> q = p)"
proof -
  have ne: "filter is_reversed (panels scene) \<noteq> []"
    using assms(1,2) by (auto simp: filter_empty_conv)
  show ?thesis
  proof (cases "result = []")
    case True
    then show ?thesis
      using assms ne by (simp add: apply_reversal_pass_def Let_def)
  next
    case False
    then have ps: "panels (apply_reversal_pass api scene)
        = map (reverse_panel (reversed_map result)) (panels scene)"
      using assms(3) ne by (simp add: apply_reversal_pass_def Let_def)
    have q: "q = reverse_panel (reversed_map result) p"
      using assms(1,4,5) ps by simp
    have a: "\<exists>m. (panel_index p, m) \<in> set result \<and>
                 reversed_map result (panel_index p) = Some m \<and>
                 visual_start q = visual_end p \<and>
                 visual_end q = visual_start p \<and>
                 motion_prompt_original q = Some (motion_prompt p) \<and>
                 motion_prompt q = m"
      if "panel_index p \<in> fst ` set result"
    proof -
      have "panel_index p \<in> dom (reversed_map result)"
        using that by (simp add: reversed_map_dom)
      then obtain m where m: "reversed_map result (panel_index p) = Some m"
        by (auto simp: dom_def)
      have flag: "is_reversed p"
        using assms(2,4) by simp
      have q': "q = p\<lparr>motion_prompt_original := Some (motion_prompt p),
               motion_prompt := m,
               visual_start := visual_end p,
               visual_end := visual_start p\<rparr>"
        using q m flag by (simp add: reverse_panel_def)
      have fields: "visual_start q = visual_end p \<and> visual_end q = visual_start p \<and>
          motion_prompt_original q = Some (motion_prompt p) \<and> motion_prompt q = m"
        by (simp add: q')
      show ?thesis
        using reversed_map_in [OF m] m fields by (intro exI [of _ m]) simp
    qed
    have b: "q = p" if "panel_index p \<notin> fst ` set result"
    proof -
      have "panel_index p \<notin> dom (reversed_map result)"
        using that by (simp add: reversed_map_dom)
      then have "reversed_map result (panel_index p) = None"
        by (auto simp: dom_def)
      then show ?thesis
        using q by (simp add: reverse_panel_def)
    qed
    show ?thesis using ps a b by (simp only: length_map) blast
  qed
qed

text \<open>Scenario B: the second panel comes out swapped, with the stub's motion text.\<close>

theorem apply_reversal_pass_fields_witness:
  "visual_start (panels (apply_reversal_pass stub_reversal scenario_b) ! 1) = ''man revealed'' \<and>
   visual_end (panels (apply_reversal_pass stub_reversal scenario_b) ! 1) = ''fog'' \<and>
   motion_prompt (panels (apply_reversal_pass stub_reversal scenario_b) ! 1) = ''fog forms over 3s'' \<and>
   motion_prompt_original (panels (apply_reversal_pass stub_reversal scenario_b) ! 1) = Some ''fog clears''"
proof -
  have len: "1 < length (panels scenario_b)"
    by (simp add: scenario_b_def)
  have p: "panel_two = panels scenario_b ! 1"
    by (simp add: scenario_b_def)
  have flag: "is_reversed (panels scenario_b ! 1)"
    by (simp add: scenario_b_def panel_two_def)
  have flt: "filter is_reversed (panels scenario_b) = [panel_two]"
    by (simp add: scenario_b_def panel_one_def panel_two_def)
  have res: "[(2, ''fog forms over 3s'')]
      = call_api (stub_reversal (filter is_reversed (panels scenario_b)))"
    by (simp only: flt call_api_first stub_reversal_def generate_json_with_schema_def outcome.case)
  have q: "panels (apply_reversal_pass stub_reversal scenario_b) ! 1
      = panels (apply_reversal_pass stub_reversal scenario_b) ! 1"
    by (rule refl)
  have idx: "panel_index panel_two \<in> fst ` set [(2, ''fog forms over 3s'')]"
    by (simp add: panel_two_def)
  note inst = apply_reversal_pass_fields
      [of 1 scenario_b "[(2, ''fog forms over 3s'')]" stub_reversal panel_two
          "panels (apply_reversal_pass stub_reversal scenario_b) ! 1", OF len flag res p q]
  from inst idx obtain m where m: "(panel_index panel_two, m) \<in> set [(2, ''fog forms over 3s'')]"
     and vs: "visual_start (panels (apply_reversal_pass stub_reversal scenario_b) ! 1) = visual_end panel_two"
     and ve: "visual_end (panels (apply_reversal_pass stub_reversal scenario_b) ! 1) = visual_start panel_two"
     and mo: "motion_prompt_original (panels (apply_reversal_pass stub_reversal scenario_b) ! 1)
       = Some (motion_prompt panel_two)"
     and mp: "motion_prompt (panels (apply_reversal_pass stub_reversal scenario_b) ! 1) = m"
    by blast
  have "m = ''fog forms over 3s''"
    using m by simp
  then show ?thesis
    unfolding vs ve mo mp by (simp add: panel_two_def)
qed

section \<open>Number formatting in file names\<close>

text \<open>
  The format specifications \<open>{sid:03d}\<close> and \<open>{idx:02d}\<close>: decimal digits, padded with
  zeros on the left to the given minimum width; the sign of a negative number counts
  towards the width; a number with more digits is not truncated.
\<close>

definition digit_char :: "nat \<Rightarrow> char" where
  "digit_char d = char_of (48 + d)"

fun digits_of :: "nat \<Rightarrow> string" where
  "digits_of n = (if n < 10 then [digit_char n] else digits_of (n div 10) @ [digit_char (n mod 10)])"

declare digits_of.simps [simp del]

definition zfill :: "nat \<Rightarrow> string \<Rightarrow> string" where
  "zfill width s = replicate (width - length s) (CHR ''0'') @ s"

definition format_0d :: "nat \<Rightarrow> int \<Rightarrow> string" where
  "format_0d width n =
     (if n < 0 then ''-'' @ zfill (width - 1) (digits_of (nat (- n)))
      else zfill width (digits_of (nat n)))"

section \<open>Slicing a composite into panels (slice_combined, slice_grid)\<close>

text \<open>\<open>range(n)\<close> for an integer \<open>n\<close>: empty when \<open>n\<close> is not positive.\<close>

definition py_range :: "int \<Rightarrow> int list" where
  "py_range n = map int [0..<nat n]"

text \<open>The grid of a panel count, as \<open>(cols, rows)\<close>; \<open>//\<close> is floor division.\<close>

definition grid_dims :: "int \<Rightarrow> int \<times> int" where
  "grid_dims panels_per_scene =
     (if panels_per_scene = 9 then (3, 3)
      else if panels_per_scene = 6 then (3, 2)
      else if panels_per_scene = 4 then (2, 2)
      else (3, (panels_per_scene + 2) div 3))"

text \<open>A crop box is \<open>(left, upper, right, lower)\<close>, as PIL takes it.\<close>

type_synonym box = "int \<times> int \<times> int \<times> int"

text \<open>The cells \<open>(r, c)\<close> in the order of \<open>for r in range(rows): for c in range(cols)\<close>.\<close>

definition grid_cells :: "int \<Rightarrow> int \<Rightarrow> (int \<times> int) list" where
  "grid_cells cols rows = List.product (py_range rows) (py_range cols)"

definition panel_file :: "int \<Rightarrow> int \<Rightarrow> string \<Rightarrow> string" where
  "panel_file sid idx role = format_0d 3 sid @ ''_'' @ format_0d 2 idx @ ''_'' @ role @ ''.png''"

text \<open>
  The two loops of the dual branch: \<open>idx\<close> starts at 1 and is incremented after every
  crop, so the cell at position \<open>k\<close> of the loop order gets index \<open>k + 1\<close>.
\<close>

definition dual_half :: "int \<Rightarrow> string \<Rightarrow> int \<Rightarrow> int \<Rightarrow> int \<Rightarrow> (int \<times> int) list \<Rightarrow> (string \<times> box) list" where
  "dual_half sid role offset pw ph cells =
     map (\<lambda>(k, (r, c)).
            (panel_file sid (int k + 1) role,
             (c * pw, offset + r * ph, (c + 1) * pw, offset + (r + 1) * ph)))
         (enumerate 0 cells)"

text \<open>
  The loops of the single-grid branch. The \<open>break\<close> leaves the inner loop only; the
  outer loop goes on to the next row with the same \<open>idx\<close>.
\<close>

fun static_row :: "int \<Rightarrow> int \<Rightarrow> int \<Rightarrow> int \<Rightarrow> int \<Rightarrow> int list \<Rightarrow> int \<Rightarrow> (string \<times> box) list \<times> int" where
  "static_row sid n pw ph r [] idx = ([], idx)"
| "static_row sid n pw ph r (c # cs) idx =
     (if idx > n then ([], idx)
      else
        (let (rest, idx') = static_row sid n pw ph r cs (idx + 1)
         in ((panel_file sid idx ''static'', (c * pw, r * ph, (c + 1) * pw, (r + 1) * ph)) # rest,
             idx')))"

fun static_rows :: "int \<Rightarrow> int \<Rightarrow> int \<Rightarrow> int \<Rightarrow> int list \<Rightarrow> int list \<Rightarrow> int \<Rightarrow> (string \<times> box) list" where
  "static_rows sid n pw ph cols_range [] idx = []"
| "static_rows sid n pw ph cols_range (r # rs) idx =
     (let (row, idx') = static_row sid n pw ph r cols_range idx
      in row @ static_rows sid n pw ph cols_range rs idx')"

text \<open>
  \<open>slice_combined\<close> of 01_cinematic_preroll.py on an image of size \<open>(w, h)\<close>: the files it
  saves under the panels directory, in order, each with its crop box. The division by
  \<open>rows\<close> raises when \<open>rows\<close> is 0 (\<open>cols\<close> is 2 or 3).
\<close>

definition slice_combined :: "int \<times> int \<Rightarrow> int \<Rightarrow> bool \<Rightarrow> int \<Rightarrow> py_error + (string \<times> box) list" where
  "slice_combined img_size sid is_dual panels_per_scene =
     (let (w, h) = img_size; (cols, rows) = grid_dims panels_per_scene in
      if is_dual then
        (let half_h = h div 2 in
         if rows = 0 then Inl ZeroDivisionError
         else
           (let pw = w div cols; ph = half_h div rows in
            Inr (dual_half sid ''start'' 0 pw ph (grid_cells cols rows) @
                 dual_half sid ''end'' half_h pw ph (grid_cells cols rows))))
      else
        (if rows = 0 then Inl ZeroDivisionError
         else
           (let pw = w div cols; ph = h div rows in
            Inr (static_rows sid panels_per_scene pw ph (py_range cols) (py_range rows) 1))))"

text \<open>
  \<open>slice_grid\<close> of 05_grid_quality_gate.py: the crop boxes of the panel images it
  returns, in order (the list \<open>panels\<close> of the source is \<open>crops\<close> here). In the
  single-grid branch the inner loop breaks once \<open>panels_count\<close> crops have been taken.
\<close>

fun gate_row :: "int \<Rightarrow> int \<Rightarrow> int \<Rightarrow> int \<Rightarrow> int list \<Rightarrow> box list \<Rightarrow> box list" where
  "gate_row n pw ph r [] crops = crops"
| "gate_row n pw ph r (c # cs) crops =
     (if int (length crops) \<ge> n then crops
      else gate_row n pw ph r cs (crops @ [(c * pw, r * ph, (c + 1) * pw, (r + 1) * ph)]))"

fun gate_rows :: "int \<Rightarrow> int \<Rightarrow> int \<Rightarrow> int list \<Rightarrow> int list \<Rightarrow> box list \<Rightarrow> box list" where
  "gate_rows n pw ph cols_range [] crops = crops"
| "gate_rows n pw ph cols_range (r # rs) crops =
     gate_rows n pw ph cols_range rs (gate_row n pw ph r cols_range crops)"

definition slice_grid :: "int \<times> int \<Rightarrow> int \<Rightarrow> bool \<Rightarrow> py_error + box list" where
  "slice_grid img_size panels_count is_dual =
     (let (w, h) = img_size; (cols, rows) = grid_dims panels_count in
      if is_dual then
        (let half_h = h div 2 in
         if rows = 0 then Inl ZeroDivisionError
         else
           (let pw = w div cols; ph = half_h div rows in
            Inr (map (\<lambda>(r, c). (c * pw, r * ph, (c + 1) * pw, (r + 1) * ph))
                   (grid_cells cols rows))))
      else
        (if rows = 0 then Inl ZeroDivisionError
         else
           (let pw = w div cols; ph = h div rows in
            Inr (gate_rows panels_count pw ph (py_range cols) (py_range rows) []))))"

text \<open>
  Two auxiliaries for stating where a crop lies: a list with its elements numbered
  from \<open>idx\<close>, as the counter of the single-grid loops numbers the cells, and the file
  and box that the body of these loops saves for a numbered cell.
\<close>

fun numbered :: "int \<Rightarrow> 'a list \<Rightarrow> (int \<times> 'a) list" where
  "numbered idx [] = []"
| "numbered idx (x # xs) = (idx, x) # numbered (idx + 1) xs"

definition static_crop :: "int \<Rightarrow> int \<Rightarrow> int \<Rightarrow> int \<times> int \<times> int \<Rightarrow> string \<times> box" where
  "static_crop sid pw ph x =
     (case x of (idx, r, c) \<Rightarrow>
        (panel_file sid idx ''static'', (c * pw, r * ph, (c + 1) * pw, (r + 1) * ph)))"

section \<open>Properties of the slicing\<close>

lemma length_py_range: "length (py_range n) = nat n"
  by (simp add: py_range_def)

lemma nth_py_range: "k < nat n \<Longrightarrow> py_range n ! k = int k"
  by (simp add: py_range_def)

lemma length_grid_cells: "length (grid_cells cols rows) = nat rows * nat cols"
  by (simp add: grid_cells_def length_py_range)

lemma nth_grid_cells:
  assumes "k < nat rows * nat cols"
  shows "grid_cells cols rows ! k = (int (k div nat cols), int (k mod nat cols))"
proof -
  have c: "0 < nat cols"
    using assms by (cases "nat cols") auto
  have d: "k div nat cols < nat rows"
    using assms c by (simp add: less_mult_imp_div_less)
  have m: "k mod nat cols < nat cols"
    using c by simp
  have "grid_cells cols rows ! k
      = (py_range rows ! (k div length (py_range cols)), py_range cols ! (k mod length (py_range cols)))"
    unfolding grid_cells_def using assms by (intro product_nth) (simp add: length_py_range)
  then show ?thesis
    using d m by (simp add: length_py_range nth_py_range)
qed

lemma length_dual_half: "length (dual_half sid role offset pw ph cells) = length cells"
  by (simp add: dual_half_def)

lemma nth_dual_half:
  assumes "k < length cells" and "cells ! k = (r, c)"
  shows "dual_half sid role offset pw ph cells ! k =
     (panel_file sid (int k + 1) role, (c * pw, offset + r * ph, (c + 1) * pw, offset + (r + 1) * ph))"
  using assms by (simp add: dual_half_def nth_enumerate_eq)

lemma digit0: "digit_char 0 = CHR ''0''"
  by code_simp

lemma digits_of_small: "n < 10 \<Longrightarrow> digits_of n = [digit_char n]"
  by (subst digits_of.simps) simp

lemma digits_of_big: "10 \<le> n \<Longrightarrow> digits_of n = digits_of (n div 10) @ [digit_char (n mod 10)]"
  by (subst digits_of.simps) simp

lemma format_three_digits:
  assumes "0 \<le> sid" and "sid < 1000"
  shows "format_0d 3 sid =
     [digit_char (nat sid div 100), digit_char (nat sid div 10 mod 10), digit_char (nat sid mod 10)]"
proof -
  define n where "n = nat sid"
  have n: "n < 1000" using assms by (simp add: n_def)
  have f: "format_0d 3 sid = zfill 3 (digits_of n)"
    using assms by (simp add: format_0d_def n_def)
  consider "n < 10" | "10 \<le> n" "n < 100" | "100 \<le> n"
    by linarith
  then have "zfill 3 (digits_of n) = [digit_char (n div 100), digit_char (n div 10 mod 10), digit_char (n mod 10)]"
  proof cases
    case 1
    then show ?thesis
      by (simp add: digits_of_small zfill_def digit0 numeral_3_eq_3)
  next
    case 2
    then have "n div 10 < 10" by simp
    then have "digits_of n = [digit_char (n div 10), digit_char (n mod 10)]"
      using 2 by (simp add: digits_of_big digits_of_small)
    then show ?thesis
      using 2 by (simp add: zfill_def digit0 numeral_3_eq_3)
  next
    case 3
    have a: "10 \<le> n" "10 \<le> n div 10" "n div 10 div 10 < 10"
      using 3 n by auto
    have "digits_of n = [digit_char (n div 10 div 10), digit_char (n div 10 mod 10), digit_char (n mod 10)]"
      using a by (simp add: digits_of_big digits_of_small)
    moreover have "n div 10 div 10 = n div 100"
      by (simp add: div_mult2_eq [symmetric])
    ultimately have "digits_of n = [digit_char (n div 100), digit_char (n div 10 mod 10), digit_char (n mod 10)]"
      by simp
    then show ?thesis
      by (simp add: zfill_def)
  qed
  then show ?thesis
    using f by (simp add: n_def)
qed

lemma fmt2: "format_0d 2 1 = ''01''" "format_0d 2 2 = ''02''" "format_0d 2 3 = ''03''"
  "format_0d 2 4 = ''04''" "format_0d 2 5 = ''05''" "format_0d 2 6 = ''06''"
  "format_0d 2 7 = ''07''" "format_0d 2 8 = ''08''" "format_0d 2 9 = ''09''"
  by code_simp+

lemma py_range_3: "py_range 3 = [0, 1, 2]"
  by code_simp

lemma slice_combined_scenario_c:
  "slice_combined (1200, 1200) sid False 9 =
     Inr [(format_0d 3 sid @ ''_01_static.png'', (0, 0, 400, 400)),
          (format_0d 3 sid @ ''_02_static.png'', (400, 0, 800, 400)),
          (format_0d 3 sid @ ''_03_static.png'', (800, 0, 1200, 400)),
          (format_0d 3 sid @ ''_04_static.png'', (0, 400, 400, 800)),
          (format_0d 3 sid @ ''_05_static.png'', (400, 400, 800, 800)),
          (format_0d 3 sid @ ''_06_static.png'', (800, 400, 1200, 800)),
          (format_0d 3 sid @ ''_07_static.png'', (0, 800, 400, 1200)),
          (format_0d 3 sid @ ''_08_static.png'', (400, 800, 800, 1200)),
          (format_0d 3 sid @ ''_09_static.png'', (800, 800, 1200, 1200))]"
  by (simp add: slice_combined_def grid_dims_def py_range_3 panel_file_def fmt2)


lemma grid_dims_facts:
  assumes "grid_dims n = (cols, rows)"
  shows "(n = 9 \<longrightarrow> cols = 3 \<and> rows = 3) \<and> (n = 6 \<longrightarrow> cols = 3 \<and> rows = 2) \<and>
         (n = 4 \<longrightarrow> cols = 2 \<and> rows = 2) \<and>
         (n \<noteq> 9 \<and> n \<noteq> 6 \<and> n \<noteq> 4 \<longrightarrow> cols = 3 \<and> n \<le> 3 * rows \<and> 3 * rows < n + 3)"
  using assms by (auto simp: grid_dims_def split: if_splits)

lemma grid_dims_cols: "grid_dims n = (cols, rows) \<Longrightarrow> 0 < cols"
  by (auto simp: grid_dims_def split: if_splits)

lemma cell_bounds:
  fixes h rows :: int
  assumes "0 \<le> h" and "k < nat rows * nat cols"
  shows "(int (k div nat cols) + 1) * (h div 2 div rows) \<le> h div 2 \<and>
         h div 2 \<le> h div 2 + int (k div nat cols) * (h div 2 div rows) \<and>
         h div 2 + (int (k div nat cols) + 1) * (h div 2 div rows) \<le> h"
proof -
  have c: "0 < nat cols"
    using assms(2) by (cases "nat cols") auto
  have rpos: "0 < rows"
    using assms(2) by (cases "0 < rows") auto
  have d: "k div nat cols < nat rows"
    using assms(2) c by (simp add: less_mult_imp_div_less)
  then have r1: "int (k div nat cols) + 1 \<le> rows"
    by linarith
  have half: "0 \<le> h div 2" using assms(1) by simp
  have ph: "0 \<le> h div 2 div rows"
    using half rpos by (simp add: pos_imp_zdiv_nonneg_iff)
  have "(int (k div nat cols) + 1) * (h div 2 div rows) \<le> rows * (h div 2 div rows)"
    using r1 ph by (rule mult_right_mono)
  also have "\<dots> \<le> h div 2"
  proof -
    have "h div 2 = rows * (h div 2 div rows) + h div 2 mod rows"
      by simp
    moreover have "0 \<le> h div 2 mod rows"
      using rpos by simp
    ultimately show ?thesis by linarith
  qed
  finally have a: "(int (k div nat cols) + 1) * (h div 2 div rows) \<le> h div 2" .
  have b: "0 \<le> int (k div nat cols) * (h div 2 div rows)"
    using ph by simp
  have "h div 2 + h div 2 \<le> h" by linarith
  then show ?thesis using a b by linarith
qed

lemma length_numbered: "length (numbered idx xs) = length xs"
  by (induction xs arbitrary: idx) simp_all

lemma nth_numbered: "k < length xs \<Longrightarrow> numbered idx xs ! k = (idx + int k, xs ! k)"
proof (induction xs arbitrary: idx k)
  case Nil
  then show ?case by simp
next
  case (Cons x xs)
  show ?case
  proof (cases k)
    case 0
    then show ?thesis by simp
  next
    case (Suc j)
    then show ?thesis using Cons.prems Cons.IH [of j "idx + 1"] by simp
  qed
qed

lemma numbered_append:
  "numbered idx (xs @ ys) = numbered idx xs @ numbered (idx + int (length xs)) ys"
  by (induction xs arbitrary: idx) (simp_all add: algebra_simps)

lemma numbered_map: "numbered idx (map f xs) = map (\<lambda>(i, x). (i, f x)) (numbered idx xs)"
  by (induction xs arbitrary: idx) simp_all

lemma static_row_eq:
  "static_row sid n pw ph r cs idx =
     (map (static_crop sid pw ph) (take (nat (n - idx + 1)) (numbered idx (map (Pair r) cs))),
      idx + int (min (length cs) (nat (n - idx + 1))))"
proof (induction cs arbitrary: idx)
  case Nil
  then show ?case by simp
next
  case (Cons c cs)
  show ?case
  proof (cases "idx > n")
    case True
    then show ?thesis by simp
  next
    case False
    then have m: "nat (n - idx + 1) = Suc (nat (n - (idx + 1) + 1))"
      by simp
    show ?thesis
      using False Cons [of "idx + 1"] unfolding m
      by (simp add: static_crop_def)
  qed
qed

lemma static_rows_eq:
  "static_rows sid n pw ph cs rs idx =
     map (static_crop sid pw ph) (take (nat (n - idx + 1)) (numbered idx (List.product rs cs)))"
proof (induction rs arbitrary: idx)
  case Nil
  then show ?case by simp
next
  case (Cons r rs)
  let ?m = "nat (n - idx + 1)"
  let ?idx' = "idx + int (min (length cs) ?m)"
  have rest: "take (nat (n - ?idx' + 1)) (numbered ?idx' (List.product rs cs))
            = take (?m - length cs) (numbered (idx + int (length cs)) (List.product rs cs))"
  proof (cases "length cs \<le> ?m")
    case True
    then have "min (length cs) ?m = length cs" by simp
    moreover have "nat (n - (idx + int (length cs)) + 1) = ?m - length cs"
      by simp
    ultimately show ?thesis by simp
  next
    case False
    then have a: "min (length cs) ?m = ?m" and b: "?m - length cs = 0" by simp_all
    have "nat (n - (idx + int ?m) + 1) = 0"
      by simp
    then show ?thesis using a b by simp
  qed
  show ?case
    using Cons [of ?idx'] rest
    by (simp add: static_row_eq numbered_append length_numbered)
qed


lemma grid_dims_capacity:
  assumes "grid_dims n = (cols, rows)" and "1 \<le> n"
  shows "0 < rows \<and> 0 < cols \<and> nat n \<le> nat rows * nat cols"
proof -
  have "0 < rows \<and> 0 < cols \<and> n \<le> rows * cols"
    using assms by (auto simp: grid_dims_def split: if_splits)
  then show ?thesis
    by (metis nat_mono nat_mult_distrib order_less_imp_le)
qed

lemma slice_combined_static:
  assumes "grid_dims n = (cols, rows)" and "1 \<le> n"
  shows "\<exists>L. slice_combined (w, h) sid False n = Inr L \<and> length L = nat n \<and>
           (\<forall>k < nat n.
              L ! k = (panel_file sid (int k + 1) ''static'',
                       (int (k mod nat cols) * (w div cols),
                        int (k div nat cols) * (h div rows),
                        (int (k mod nat cols) + 1) * (w div cols),
                        (int (k div nat cols) + 1) * (h div rows))))"
proof -
  let ?L = "map (static_crop sid (w div cols) (h div rows))
              (take (nat n) (numbered 1 (grid_cells cols rows)))"
  note cap = grid_dims_capacity [OF assms]
  have eq: "slice_combined (w, h) sid False n = Inr ?L"
    using assms(1) cap by (simp add: slice_combined_def static_rows_eq grid_cells_def)
  have len: "length ?L = nat n"
    using cap by (simp add: length_numbered length_grid_cells)
  have nth: "?L ! k = (panel_file sid (int k + 1) ''static'',
                       (int (k mod nat cols) * (w div cols),
                        int (k div nat cols) * (h div rows),
                        (int (k mod nat cols) + 1) * (w div cols),
                        (int (k div nat cols) + 1) * (h div rows)))" if "k < nat n" for k
  proof -
    have k: "k < nat rows * nat cols" using that cap by linarith
    then have "k < length (grid_cells cols rows)" by (simp add: length_grid_cells)
    then have "numbered 1 (grid_cells cols rows) ! k = (1 + int k, grid_cells cols rows ! k)"
      by (rule nth_numbered)
    then have "?L ! k = static_crop sid (w div cols) (h div rows)
                 (1 + int k, int (k div nat cols), int (k mod nat cols))"
      using that k by (simp add: length_numbered length_grid_cells nth_grid_cells)
    then show ?thesis
      by (simp add: static_crop_def add.commute)
  qed
  show ?thesis
    using eq len nth by blast
qed

text \<open>
  Claim C3. (1) The grid is a function of the configured panel count alone: 9 gives
  3 columns by 3 rows, 6 gives 3 by 2, 4 gives 2 by 2, and every other count \<open>n\<close> gives
  3 columns and the least number of rows with \<open>n \<le> 3 * rows\<close>, which is
  \<open>ceil(n / 3)\<close>. (2) In dual-grid mode, unless the grid has no row (then the division
  by \<open>rows\<close> raises), the saved files are the start crops followed by the end crops,
  one of each per cell; the crop number \<open>k\<close> (from 0) of either half is the cell in
  column \<open>k mod cols\<close> and row \<open>k div cols\<close>, of width \<open>W div cols\<close> and height
  \<open>(H div 2) div rows\<close>, named by scene id, index \<open>k + 1\<close> and the token \<open>start\<close> or
  \<open>end\<close>; the end crops are the start crops moved down by \<open>H div 2\<close>; and for an image
  of height \<open>H \<ge> 0\<close> no start crop reaches below the midpoint \<open>H div 2\<close> and no end
  crop starts above it or ends below the image. (3) In single-grid mode, for every
  width and height and every panel count \<open>n \<ge> 1\<close>, exactly \<open>n\<close> crops are saved: crop
  number \<open>k\<close> (from 0) is the cell in column \<open>k mod cols\<close> and row \<open>k div cols\<close>, of width
  \<open>W div cols\<close> and height \<open>H div rows\<close>, named by scene id, index \<open>k + 1\<close> and the token
  \<open>static\<close>; the cells of the grid beyond the \<open>n\<close>-th are not saved. In particular a
  1200 by 1200 composite configured for 9 panels gives exactly 9 crops of 400 by 400,
  named by the scene id zero-padded to 3 characters (3 digits for an id from 0 to
  999), the index 01 to 09 and the token \<open>static\<close>.
\<close>

theorem slice_combined_layout:
  assumes "grid_dims n = (cols, rows)"
  shows "(n = 9 \<longrightarrow> cols = 3 \<and> rows = 3) \<and> (n = 6 \<longrightarrow> cols = 3 \<and> rows = 2) \<and>
         (n = 4 \<longrightarrow> cols = 2 \<and> rows = 2) \<and>
         (n \<noteq> 9 \<and> n \<noteq> 6 \<and> n \<noteq> 4 \<longrightarrow> cols = 3 \<and> n \<le> 3 * rows \<and> 3 * rows < n + 3) \<and>
         (rows \<noteq> 0 \<longrightarrow>
            (\<exists>S E. slice_combined (w, h) sid True n = Inr (S @ E) \<and>
               length S = nat rows * nat cols \<and> length E = nat rows * nat cols \<and>
               (\<forall>k < nat rows * nat cols.
                  S ! k = (panel_file sid (int k + 1) ''start'',
                           (int (k mod nat cols) * (w div cols),
                            int (k div nat cols) * (h div 2 div rows),
                            (int (k mod nat cols) + 1) * (w div cols),
                            (int (k div nat cols) + 1) * (h div 2 div rows))) \<and>
                  E ! k = (panel_file sid (int k + 1) ''end'',
                           (int (k mod nat cols) * (w div cols),
                            h div 2 + int (k div nat cols) * (h div 2 div rows),
                            (int (k mod nat cols) + 1) * (w div cols),
                            h div 2 + (int (k div nat cols) + 1) * (h div 2 div rows))) \<and>
                  (0 \<le> h \<longrightarrow>
                     (int (k div nat cols) + 1) * (h div 2 div rows) \<le> h div 2 \<and>
                     h div 2 \<le> h div 2 + int (k div nat cols) * (h div 2 div rows) \<and>
                     h div 2 + (int (k div nat cols) + 1) * (h div 2 div rows) \<le> h)))) \<and>
         (1 \<le> n \<longrightarrow>
            (\<exists>L. slice_combined (w, h) sid False n = Inr L \<and> length L = nat n \<and>
               (\<forall>k < nat n.
                  L ! k = (panel_file sid (int k + 1) ''static'',
                           (int (k mod nat cols) * (w div cols),
                            int (k div nat cols) * (h div rows),
                            (int (k mod nat cols) + 1) * (w div cols),
                            (int (k div nat cols) + 1) * (h div rows)))))) \<and>
         slice_combined (1200, 1200) sid False 9 =
           Inr [(format_0d 3 sid @ ''_01_static.png'', (0, 0, 400, 400)),
                (format_0d 3 sid @ ''_02_static.png'', (400, 0, 800, 400)),
                (format_0d 3 sid @ ''_03_static.png'', (800, 0, 1200, 400)),
                (format_0d 3 sid @ ''_04_static.png'', (0, 400, 400, 800)),
                (format_0d 3 sid @ ''_05_static.png'', (400, 400, 800, 800)),
                (format_0d 3 sid @ ''_06_static.png'', (800, 400, 1200, 800)),
                (format_0d 3 sid @ ''_07_static.png'', (0, 800, 400, 1200)),
                (format_0d 3 sid @ ''_08_static.png'', (400, 800, 800, 1200)),
                (format_0d 3 sid @ ''_09_static.png'', (800, 800, 1200, 1200))] \<and>
         (0 \<le> sid \<and> sid < 1000 \<longrightarrow>
            format_0d 3 sid =
              [digit_char (nat sid div 100), digit_char (nat sid div 10 mod 10),
               digit_char (nat sid mod 10)])"
proof -
  let ?pw = "w div cols" and ?ph = "h div 2 div rows"
  let ?S = "dual_half sid ''start'' 0 ?pw ?ph (grid_cells cols rows)"
  let ?E = "dual_half sid ''end'' (h div 2) ?pw ?ph (grid_cells cols rows)"
  have dual: "slice_combined (w, h) sid True n = Inr (?S @ ?E)" if "rows \<noteq> 0"
    using that assms by (simp add: slice_combined_def Let_def)
  have lens: "length ?S = nat rows * nat cols" "length ?E = nat rows * nat cols"
    by (simp_all add: length_dual_half length_grid_cells)
  have nthS: "?S ! k = (panel_file sid (int k + 1) ''start'',
                           (int (k mod nat cols) * ?pw, int (k div nat cols) * ?ph,
                            (int (k mod nat cols) + 1) * ?pw, (int (k div nat cols) + 1) * ?ph))"
    if "k < nat rows * nat cols" for k
    using nth_dual_half [of k "grid_cells cols rows" "int (k div nat cols)" "int (k mod nat cols)"
        sid "''start''" 0 ?pw ?ph] that
    by (simp add: length_grid_cells nth_grid_cells)
  have nthE: "?E ! k = (panel_file sid (int k + 1) ''end'',
                           (int (k mod nat cols) * ?pw, h div 2 + int (k div nat cols) * ?ph,
                            (int (k mod nat cols) + 1) * ?pw, h div 2 + (int (k div nat cols) + 1) * ?ph))"
    if "k < nat rows * nat cols" for k
    using nth_dual_half [of k "grid_cells cols rows" "int (k div nat cols)" "int (k mod nat cols)"
        sid "''end''" "h div 2" ?pw ?ph] that
    by (simp add: length_grid_cells nth_grid_cells)
  have part2: "rows \<noteq> 0 \<longrightarrow>
            (\<exists>S E. slice_combined (w, h) sid True n = Inr (S @ E) \<and>
               length S = nat rows * nat cols \<and> length E = nat rows * nat cols \<and>
               (\<forall>k < nat rows * nat cols.
                  S ! k = (panel_file sid (int k + 1) ''start'',
                           (int (k mod nat cols) * (w div cols),
                            int (k div nat cols) * (h div 2 div rows),
                            (int (k mod nat cols) + 1) * (w div cols),
                            (int (k div nat cols) + 1) * (h div 2 div rows))) \<and>
                  E ! k = (panel_file sid (int k + 1) ''end'',
                           (int (k mod nat cols) * (w div cols),
                            h div 2 + int (k div nat cols) * (h div 2 div rows),
                            (int (k mod nat cols) + 1) * (w div cols),
                            h div 2 + (int (k div nat cols) + 1) * (h div 2 div rows))) \<and>
                  (0 \<le> h \<longrightarrow>
                     (int (k div nat cols) + 1) * (h div 2 div rows) \<le> h div 2 \<and>
                     h div 2 \<le> h div 2 + int (k div nat cols) * (h div 2 div rows) \<and>
                     h div 2 + (int (k div nat cols) + 1) * (h div 2 div rows) \<le> h)))"
  proof
    assume r: "rows \<noteq> 0"
    show "\<exists>S E. slice_combined (w, h) sid True n = Inr (S @ E) \<and>
               length S = nat rows * nat cols \<and> length E = nat rows * nat cols \<and>
               (\<forall>k < nat rows * nat cols.
                  S ! k = (panel_file sid (int k + 1) ''start'',
                           (int (k mod nat cols) * (w div cols),
                            int (k div nat cols) * (h div 2 div rows),
                            (int (k mod nat cols) + 1) * (w div cols),
                            (int (k div nat cols) + 1) * (h div 2 div rows))) \<and>
                  E ! k = (panel_file sid (int k + 1) ''end'',
                           (int (k mod nat cols) * (w div cols),
                            h div 2 + int (k div nat cols) * (h div 2 div rows),
                            (int (k mod nat cols) + 1) * (w div cols),
                            h div 2 + (int (k div nat cols) + 1) * (h div 2 div rows))) \<and>
                  (0 \<le> h \<longrightarrow>
                     (int (k div nat cols) + 1) * (h div 2 div rows) \<le> h div 2 \<and>
                     h div 2 \<le> h div 2 + int (k div nat cols) * (h div 2 div rows) \<and>
                     h div 2 + (int (k div nat cols) + 1) * (h div 2 div rows) \<le> h))"
      apply (rule exI [of _ ?S])
      apply (rule exI [of _ ?E])
      using dual [OF r] lens nthS nthE cell_bounds [of h _ rows cols]
      apply (intro conjI allI impI)
      apply blast+
      done
  qed
  have part3: "1 \<le> n \<longrightarrow>
            (\<exists>L. slice_combined (w, h) sid False n = Inr L \<and> length L = nat n \<and>
               (\<forall>k < nat n.
                  L ! k = (panel_file sid (int k + 1) ''static'',
                           (int (k mod nat cols) * (w div cols),
                            int (k div nat cols) * (h div rows),
                            (int (k mod nat cols) + 1) * (w div cols),
                            (int (k div nat cols) + 1) * (h div rows)))))"
    using slice_combined_static [OF assms, of w h sid] by blast
  have part1: "(n = 9 \<longrightarrow> cols = 3 \<and> rows = 3) \<and> (n = 6 \<longrightarrow> cols = 3 \<and> rows = 2) \<and>
         (n = 4 \<longrightarrow> cols = 2 \<and> rows = 2) \<and>
         (n \<noteq> 9 \<and> n \<noteq> 6 \<and> n \<noteq> 4 \<longrightarrow> cols = 3 \<and> n \<le> 3 * rows \<and> 3 * rows < n + 3)"
    by (rule grid_dims_facts [OF assms])
  have part5: "0 \<le> sid \<and> sid < 1000 \<longrightarrow>
            format_0d 3 sid =
              [digit_char (nat sid div 100), digit_char (nat sid div 10 mod 10),
               digit_char (nat sid mod 10)]"
    using format_three_digits [of sid] by blast
  from part1 have a: "n = 9 \<longrightarrow> cols = 3 \<and> rows = 3" and b: "n = 6 \<longrightarrow> cols = 3 \<and> rows = 2"
    and c: "n = 4 \<longrightarrow> cols = 2 \<and> rows = 2"
    and d: "n \<noteq> 9 \<and> n \<noteq> 6 \<and> n \<noteq> 4 \<longrightarrow> cols = 3 \<and> n \<le> 3 * rows \<and> 3 * rows < n + 3"
    by blast+
  show ?thesis
    by (intro conjI) (rule a b c d part2 part3 slice_combined_scenario_c part5)+
qed

lemma format_0d_seven: "format_0d 3 7 = ''007''" by code_simp
lemma panel_file_five: "panel_file 7 5 ''start'' = ''007_05_start.png''" "panel_file 7 5 ''end'' = ''007_05_end.png''"
  "panel_file 7 5 ''static'' = ''007_05_static.png''"
  by code_simp+

text \<open>
  Scenario C, for scene 7, the fifth cell of a dual 1200 by 1200 composite, and the
  fifth and last crop of a single 1000 by 600 composite configured for 5 panels.
\<close>

theorem slice_combined_layout_witness:
  "grid_dims 9 = (3, 3) \<and>
   slice_combined (1200, 1200) 7 False 9 =
           Inr [(''007_01_static.png'', (0, 0, 400, 400)),
                (''007_02_static.png'', (400, 0, 800, 400)),
                (''007_03_static.png'', (800, 0, 1200, 400)),
                (''007_04_static.png'', (0, 400, 400, 800)),
                (''007_05_static.png'', (400, 400, 800, 800)),
                (''007_06_static.png'', (800, 400, 1200, 800)),
                (''007_07_static.png'', (0, 800, 400, 1200)),
                (''007_08_static.png'', (400, 800, 800, 1200)),
                (''007_09_static.png'', (800, 800, 1200, 1200))] \<and>
   (\<exists>S E. slice_combined (1200, 1200) 7 True 9 = Inr (S @ E) \<and> length S = 9 \<and> length E = 9 \<and>
      S ! 4 = (''007_05_start.png'', (400, 200, 800, 400)) \<and>
      E ! 4 = (''007_05_end.png'', (400, 800, 800, 1000))) \<and>
   grid_dims 5 = (3, 2) \<and>
   (\<exists>L. slice_combined (1000, 600) 7 False 5 = Inr L \<and> length L = 5 \<and>
      L ! 4 = (''007_05_static.png'', (333, 300, 666, 600)))"
proof -
  have g5: "grid_dims 5 = (3, 2)"
    by (simp add: grid_dims_def)
  note inst5 = slice_combined_layout [OF g5, of 1000 600 7]
  have n5: "(1::int) \<le> 5" by simp
  from inst5 n5 obtain L where L: "slice_combined (1000, 600) 7 False 5 = Inr L" "length L = nat 5"
      and allL: "\<forall>k < nat 5.
                  L ! k = (panel_file 7 (int k + 1) ''static'',
                           (int (k mod nat 3) * (1000 div 3),
                            int (k div nat 3) * (600 div 2),
                            (int (k mod nat 3) + 1) * (1000 div 3),
                            (int (k div nat 3) + 1) * (600 div 2)))"
    by blast
  have "(4::nat) < nat 5" by simp
  with allL have L4: "L ! 4 = (panel_file 7 (int 4 + 1) ''static'',
                           (int (4 mod nat 3) * (1000 div 3),
                            int (4 div nat 3) * (600 div 2),
                            (int (4 mod nat 3) + 1) * (1000 div 3),
                            (int (4 div nat 3) + 1) * (600 div 2)))"
    by blast
  have L4': "L ! 4 = (''007_05_static.png'', (333, 300, 666, 600))"
    unfolding L4 by (simp add: panel_file_five)
  have static: "\<exists>L. slice_combined (1000, 600) 7 False 5 = Inr L \<and> length L = 5 \<and>
      L ! 4 = (''007_05_static.png'', (333, 300, 666, 600))"
    using L L4' by simp
  have g: "grid_dims 9 = (3, 3)"
    by (simp add: grid_dims_def)
  note inst = slice_combined_layout [OF g, of 1200 1200 7]
  have r: "(3::int) \<noteq> 0" by simp
  from inst have st: "slice_combined (1200, 1200) 7 False 9 =
           Inr [(format_0d 3 7 @ ''_01_static.png'', (0, 0, 400, 400)),
                (format_0d 3 7 @ ''_02_static.png'', (400, 0, 800, 400)),
                (format_0d 3 7 @ ''_03_static.png'', (800, 0, 1200, 400)),
                (format_0d 3 7 @ ''_04_static.png'', (0, 400, 400, 800)),
                (format_0d 3 7 @ ''_05_static.png'', (400, 400, 800, 800)),
                (format_0d 3 7 @ ''_06_static.png'', (800, 400, 1200, 800)),
                (format_0d 3 7 @ ''_07_static.png'', (0, 800, 400, 1200)),
                (format_0d 3 7 @ ''_08_static.png'', (400, 800, 800, 1200)),
                (format_0d 3 7 @ ''_09_static.png'', (800, 800, 1200, 1200))]"
    by blast
  from inst r obtain S E where SE: "slice_combined (1200, 1200) 7 True 9 = Inr (S @ E)"
      "length S = nat 3 * nat 3" "length E = nat 3 * nat 3"
      and all: "\<forall>k < nat 3 * nat 3.
                  S ! k = (panel_file 7 (int k + 1) ''start'',
                           (int (k mod nat 3) * (1200 div 3),
                            int (k div nat 3) * (1200 div 2 div 3),
                            (int (k mod nat 3) + 1) * (1200 div 3),
                            (int (k div nat 3) + 1) * (1200 div 2 div 3))) \<and>
                  E ! k = (panel_file 7 (int k + 1) ''end'',
                           (int (k mod nat 3) * (1200 div 3),
                            1200 div 2 + int (k div nat 3) * (1200 div 2 div 3),
                            (int (k mod nat 3) + 1) * (1200 div 3),
                            1200 div 2 + (int (k div nat 3) + 1) * (1200 div 2 div 3)))"
    by blast
  have "(4::nat) < nat 3 * nat 3" by simp
  with all have four: "S ! 4 = (panel_file 7 (int 4 + 1) ''start'',
                           (int (4 mod nat 3) * (1200 div 3),
                            int (4 div nat 3) * (1200 div 2 div 3),
                            (int (4 mod nat 3) + 1) * (1200 div 3),
                            (int (4 div nat 3) + 1) * (1200 div 2 div 3)))"
     "E ! 4 = (panel_file 7 (int 4 + 1) ''end'',
                           (int (4 mod nat 3) * (1200 div 3),
                            1200 div 2 + int (4 div nat 3) * (1200 div 2 div 3),
                            (int (4 mod nat 3) + 1) * (1200 div 3),
                            1200 div 2 + (int (4 div nat 3) + 1) * (1200 div 2 div 3)))"
    by blast+
  have S4: "S ! 4 = (''007_05_start.png'', (400, 200, 800, 400))"
    unfolding four by (simp add: panel_file_five)
  have E4: "E ! 4 = (''007_05_end.png'', (400, 800, 800, 1000))"
    unfolding four by (simp add: panel_file_five)
  have lens: "length S = 9" "length E = 9"
    using SE(2,3) by simp_all
  have dual: "\<exists>S E. slice_combined (1200, 1200) 7 True 9 = Inr (S @ E) \<and> length S = 9 \<and> length E = 9 \<and>
      S ! 4 = (''007_05_start.png'', (400, 200, 800, 400)) \<and>
      E ! 4 = (''007_05_end.png'', (400, 800, 800, 1000))"
    using SE(1) lens S4 E4 by blast
  show ?thesis
    using g st dual g5 static by (simp add: format_0d_seven)
qed

section \<open>The quality gate (05_grid_quality_gate.py)\<close>

text \<open>
  The values that \<open>json.loads\<close> returns. A float is \<open>JFloat m e\<close> for the number
  \<open>m * 2 ^ e\<close>, or \<open>JNonFinite\<close> for \<open>NaN\<close>, \<open>Infinity\<close> and \<open>-Infinity\<close>, which
  \<open>json.loads\<close> accepts. A \<open>dict\<close> is an association list: it keeps the order in which
  its keys were inserted, a key is looked up with \<open>map_of\<close>, and an item assignment is
  \<open>AList.update\<close>, which replaces the value of a key in place and appends a new key.
\<close>

datatype json =
  JNull
| JBool bool
| JInt int
| JFloat int int
| JNonFinite
| JString string
| JList "json list"
| JObject "(string \<times> json) list"

text \<open>The truth value of a JSON value in a condition.\<close>

fun truthy :: "json \<Rightarrow> bool" where
  "truthy JNull = False"
| "truthy (JBool b) = b"
| "truthy (JInt i) = (i \<noteq> 0)"
| "truthy (JFloat m e) = (m \<noteq> 0)"
| "truthy JNonFinite = True"
| "truthy (JString s) = (s \<noteq> [])"
| "truthy (JList vs) = (vs \<noteq> [])"
| "truthy (JObject d) = (d \<noteq> [])"

text \<open>
  The answer of the scoring service to one request: the call raises (\<open>ApiError\<close>, with
  \<open>str(e)\<close>), or it returns a text that \<open>json.loads\<close> rejects (\<open>BadJson\<close>, with the
  message of the decoding error), or the text parses to a JSON value. The schema
  \<open>PANEL_QA_SCHEMA\<close> is sent with the request, but nothing checks the parsed value
  against it.
\<close>

datatype qa_response =
  ApiError string
| BadJson string
| Parsed json

text \<open>A directive of the report is the \<open>dict\<close> that \<open>analyze_panel\<close> returns.\<close>

type_synonym directive = "(string \<times> json) list"

text \<open>
  What \<open>analyze_panel\<close> sends: the crop to score, the description of the panel, the
  end states of the panels before it, the camera and motion texts and the names of the
  references that could be loaded.
\<close>

record qa_request =
  req_image :: box
  req_visual :: string
  req_prev_panels :: "(int \<times> string) list"
  req_camera :: string
  req_motion :: string
  req_expected :: "string list"
  req_loaded :: "string list"

text \<open>
  \<open>visual_desc = panel_meta.get("visual_start", "")\<close>, replaced by \<open>visual_end\<close> when it
  is empty. A missing key and an empty text take the same branch.
\<close>

definition visual_desc :: "panel \<Rightarrow> string" where
  "visual_desc panel_meta =
     (if visual_start panel_meta = [] then visual_end panel_meta else visual_start panel_meta)"

definition MAX_REFS_PER_PANEL :: nat where
  "MAX_REFS_PER_PANEL = 6"

text \<open>
  \<open>loadable\<close> says of a reference name that \<open>find_ref\<close> finds it in the catalog with an
  image that opens.
\<close>

definition build_request :: "(string \<Rightarrow> bool) \<Rightarrow> box \<Rightarrow> panel \<Rightarrow> scene \<Rightarrow> qa_request" where
  "build_request loadable panel_img panel_meta scene_meta =
     \<lparr>req_image = panel_img,
      req_visual = visual_desc panel_meta,
      req_prev_panels =
        map (\<lambda>p. (panel_index p, visual_end p))
          (filter (\<lambda>p. panel_index p < panel_index panel_meta) (panels scene_meta)),
      req_camera = lights_and_camera panel_meta,
      req_motion = take 300 (motion_prompt panel_meta),
      req_expected = references panel_meta,
      req_loaded = filter loadable (take MAX_REFS_PER_PANEL (references panel_meta))\<rparr>"

text \<open>The \<open>dict\<close> built in the \<open>except\<close> branch of \<open>analyze_panel\<close>.\<close>

definition error_result :: "string \<Rightarrow> directive" where
  "error_result e =
     [(''fidelity'', JInt 0),
      (''character_consistency'', JInt 0),
      (''composition_match'', JInt 0),
      (''artifacts'', JList [JString (''API_ERROR: '' @ take 200 e)]),
      (''needs_refinement'', JBool True),
      (''refinement_prompt'', JString ''API call failed, manual review required.''),
      (''reasoning'', JString (''Error: '' @ e))]"

text \<open>The four item assignments at the end of \<open>analyze_panel\<close>.\<close>

definition enrich :: "directive \<Rightarrow> int \<Rightarrow> int \<Rightarrow> string list \<Rightarrow> string list \<Rightarrow> directive" where
  "enrich result sid pid ref_names loaded_refs =
     AList.update ''references_loaded'' (JList (map JString loaded_refs))
       (AList.update ''references_expected'' (JList (map JString ref_names))
          (AList.update ''panel_id'' (JInt pid)
             (AList.update ''scene_id'' (JInt sid) result)))"

text \<open>
  \<open>analyze_panel\<close>. The item assignments stand after the \<open>try\<close> block, outside of it: on
  a parsed value that is no \<open>dict\<close> (a list, a text, a number, \<open>null\<close>) the first of them
  raises a \<open>TypeError\<close> that \<open>analyze_panel\<close> does not catch.
\<close>

definition analyze_panel ::
  "(qa_request \<Rightarrow> qa_response) \<Rightarrow> (string \<Rightarrow> bool) \<Rightarrow> box \<Rightarrow> panel \<Rightarrow> scene \<Rightarrow> int \<Rightarrow> int
     \<Rightarrow> py_error + directive" where
  "analyze_panel service loadable panel_img panel_meta scene_meta sid pid =
     (let request = build_request loadable panel_img panel_meta scene_meta;
          result = (case service request of
                      ApiError e \<Rightarrow> JObject (error_result e)
                    | BadJson e \<Rightarrow> JObject (error_result e)
                    | Parsed v \<Rightarrow> v)
      in case result of
           JObject d \<Rightarrow> Inr (enrich d sid pid (req_expected request) (req_loaded request))
         | JNull \<Rightarrow> Inl TypeError
         | JBool b \<Rightarrow> Inl TypeError
         | JInt i \<Rightarrow> Inl TypeError
         | JFloat m e \<Rightarrow> Inl TypeError
         | JNonFinite \<Rightarrow> Inl TypeError
         | JString s \<Rightarrow> Inl TypeError
         | JList vs \<Rightarrow> Inl TypeError)"

text \<open>
  The reads of \<open>process_scene\<close> after it has appended a result, for its log lines:
  \<open>result["fidelity"]\<close>, \<open>result["character_consistency"]\<close>, \<open>result["needs_refinement"]\<close>
  and \<open>result["artifacts"]\<close> raise \<open>KeyError\<close> on a missing key, and
  \<open>result["artifacts"][:3]\<close>, taken when the value is truthy, raises unless the value
  is a list or a text (a \<open>TypeError\<close>; for a \<open>dict\<close> a \<open>KeyError\<close> from Python 3.12 on).
  The result is the exception raised, if any.
\<close>

definition log_reads :: "directive \<Rightarrow> py_error option" where
  "log_reads result =
     (case map_of result ''fidelity'' of
        None \<Rightarrow> Some KeyError
      | Some fid \<Rightarrow>
     (case map_of result ''character_consistency'' of
        None \<Rightarrow> Some KeyError
      | Some cc \<Rightarrow>
     (case map_of result ''needs_refinement'' of
        None \<Rightarrow> Some KeyError
      | Some need \<Rightarrow>
     (case map_of result ''artifacts'' of
        None \<Rightarrow> Some KeyError
      | Some arts \<Rightarrow>
          if truthy arts
          then (case arts of JList vs \<Rightarrow> None | JString s \<Rightarrow> None | _ \<Rightarrow> Some TypeError)
          else None))))"

text \<open>
  The loop of \<open>process_scene\<close> over the panels sorted by \<open>panel_index\<close>: a panel outside
  the optional filter or without a crop is skipped, every other panel is analysed and
  its directive appended; an exception of \<open>analyze_panel\<close> or of the reads that follow
  ends the scene without a result. \<open>panel_filter\<close> is \<open>None\<close> or a list; an empty list
  is falsy and filters nothing.
\<close>

definition skipped :: "int list option \<Rightarrow> nat \<Rightarrow> panel \<Rightarrow> bool" where
  "skipped panel_filter n_images panel_meta =
     ((case panel_filter of
         None \<Rightarrow> False
       | Some f \<Rightarrow> f \<noteq> [] \<and> panel_index panel_meta \<notin> set f) \<or>
      panel_index panel_meta < 1 \<or> panel_index panel_meta > int n_images)"

fun scene_loop ::
  "(qa_request \<Rightarrow> qa_response) \<Rightarrow> (string \<Rightarrow> bool) \<Rightarrow> box list \<Rightarrow> int list option \<Rightarrow> scene
     \<Rightarrow> panel list \<Rightarrow> directive list \<Rightarrow> py_error + directive list" where
  "scene_loop service loadable panel_images panel_filter scene [] results = Inr results"
| "scene_loop service loadable panel_images panel_filter scene (panel_meta # rest) results =
     (if skipped panel_filter (length panel_images) panel_meta
      then scene_loop service loadable panel_images panel_filter scene rest results
      else
        (case analyze_panel service loadable
                (panel_images ! nat (panel_index panel_meta - 1)) panel_meta scene
                (scene_id scene) (panel_index panel_meta) of
           Inl e \<Rightarrow> Inl e
         | Inr result \<Rightarrow>
             (case log_reads result of
                Some e \<Rightarrow> Inl e
              | None \<Rightarrow>
                  scene_loop service loadable panel_images panel_filter scene rest
                    (results @ [result]))))"

text \<open>
  \<open>process_scene\<close>; \<open>grid\<close> is the size of the composite of the scene when the file
  exists. \<open>is_dual\<close> is \<open>"dual" in grid_format\<close>.
\<close>

definition process_scene ::
  "(qa_request \<Rightarrow> qa_response) \<Rightarrow> (string \<Rightarrow> bool) \<Rightarrow> (int \<times> int) option \<Rightarrow> scene \<Rightarrow> string \<Rightarrow> int
     \<Rightarrow> int list option \<Rightarrow> py_error + directive list" where
  "process_scene service loadable grid scene grid_format panels_per_scene panel_filter =
     (case grid of
        None \<Rightarrow> Inr []
      | Some img_size \<Rightarrow>
          (case slice_grid img_size panels_per_scene (contains grid_format ''dual'') of
             Inl e \<Rightarrow> Inl e
           | Inr panel_images \<Rightarrow>
               scene_loop service loadable panel_images panel_filter scene
                 (sort_key panel_index (panels scene)) []))"

text \<open>
  An answer with which the loop of \<open>process_scene\<close> goes on to the next panel: a failed
  call, an unparseable text, or an object that holds the four keys the loop reads, its
  \<open>artifacts\<close> being falsy, a list or a text.
\<close>

definition conforming :: "qa_response \<Rightarrow> bool" where
  "conforming answer =
     (case answer of
        ApiError e \<Rightarrow> True
      | BadJson e \<Rightarrow> True
      | Parsed v \<Rightarrow>
          (case v of
             JObject d \<Rightarrow>
               map_of d ''fidelity'' \<noteq> None \<and> map_of d ''character_consistency'' \<noteq> None \<and>
               map_of d ''needs_refinement'' \<noteq> None \<and>
               (case map_of d ''artifacts'' of
                  None \<Rightarrow> False
                | Some arts \<Rightarrow>
                    (case arts of JList vs \<Rightarrow> True | JString s \<Rightarrow> True | _ \<Rightarrow> \<not> truthy arts))
           | _ \<Rightarrow> False))"

text \<open>
  Scenario D of the specification: a scene of five panels, a single 1200 by 1200 grid
  for 9 panels, and a scoring service whose answer for the third panel cannot be
  parsed; beside it a service that answers every request with the same scores, and one
  whose answer for the second panel cannot be parsed and whose answer for the third
  panel parses to a list.
\<close>

definition mk_panel :: "int \<Rightarrow> string \<Rightarrow> string \<Rightarrow> panel" where
  "mk_panel i vs ve =
     \<lparr>panel_index = i, visual_start = vs, visual_end = ve, motion_prompt = [],
      motion_prompt_original = None, is_reversed = False, motion_prompt_reversed = [],
      lights_and_camera = [], dialogue = [], caption = [], duration = 7, references = []\<rparr>"

definition scenario_d :: scene where
  "scenario_d =
     \<lparr>scene_id = 1, location = ''jungle'', pre_action_description = [],
      panels = [mk_panel 1 ''one'' ''one end'', mk_panel 2 ''two'' ''two end'',
                mk_panel 3 ''three'' ''three end'', mk_panel 4 ''four'' ''four end'',
                mk_panel 5 ''five'' ''five end'']\<rparr>"

definition good_fields :: directive where
  "good_fields =
     [(''fidelity'', JInt 8), (''character_consistency'', JInt 7),
      (''composition_match'', JInt 9), (''artifacts'', JList []),
      (''needs_refinement'', JBool False), (''refinement_prompt'', JString []),
      (''reasoning'', JString ''matches'')]"

definition all_good_scoring :: "qa_request \<Rightarrow> qa_response" where
  "all_good_scoring request = Parsed (JObject good_fields)"



definition no_refs :: "string \<Rightarrow> bool" where
  "no_refs name = False"

text \<open>A service that scores outside the range and attaches a prompt to a passing panel.\<close>

definition over_fields :: directive where
  "over_fields =
     [(''fidelity'', JInt 11), (''character_consistency'', JInt 12),
      (''composition_match'', JInt (- 1)), (''artifacts'', JList []),
      (''needs_refinement'', JBool False), (''refinement_prompt'', JString ''redo the face''),
      (''reasoning'', JString [])]"

definition overscoring :: "qa_request \<Rightarrow> qa_response" where
  "overscoring request = Parsed (JObject over_fields)"

text \<open>A scene with a dual composite; its second panel has no \<open>visual_start\<close>.\<close>

definition scenario_dual :: scene where
  "scenario_dual =
     \<lparr>scene_id = 3, location = ''jungle'', pre_action_description = [],
      panels = [mk_panel 1 ''one'' ''one end'', mk_panel 2 [] ''end only'']\<rparr>"

section \<open>Properties of the quality gate\<close>

lemma map_of_enrich:
  "map_of (enrich d sid pid ex ld) k =
     (if k = ''references_loaded'' then Some (JList (map JString ld))
      else if k = ''references_expected'' then Some (JList (map JString ex))
      else if k = ''panel_id'' then Some (JInt pid)
      else if k = ''scene_id'' then Some (JInt sid)
      else map_of d k)"
  by (simp add: enrich_def update_conv')

lemma analyze_panel_cases:
  "analyze_panel service loadable img p s sid pid =
     (case service (build_request loadable img p s) of
        ApiError e \<Rightarrow> Inr (enrich (error_result e) sid pid (references p)
                            (filter loadable (take MAX_REFS_PER_PANEL (references p))))
      | BadJson e \<Rightarrow> Inr (enrich (error_result e) sid pid (references p)
                            (filter loadable (take MAX_REFS_PER_PANEL (references p))))
      | Parsed v \<Rightarrow>
          (case v of
             JObject d \<Rightarrow> Inr (enrich d sid pid (references p)
                            (filter loadable (take MAX_REFS_PER_PANEL (references p))))
           | _ \<Rightarrow> Inl TypeError))"
  by (simp add: analyze_panel_def Let_def build_request_def split: qa_response.splits json.splits)

lemma log_reads_enrich: "log_reads (enrich d sid pid ex ld) = log_reads d"
proof -
  have "map_of (enrich d sid pid ex ld) ''fidelity'' = map_of d ''fidelity''"
    "map_of (enrich d sid pid ex ld) ''character_consistency'' = map_of d ''character_consistency''"
    "map_of (enrich d sid pid ex ld) ''needs_refinement'' = map_of d ''needs_refinement''"
    "map_of (enrich d sid pid ex ld) ''artifacts'' = map_of d ''artifacts''"
    by (simp_all add: map_of_enrich)
  then show ?thesis
    unfolding log_reads_def by (simp only:)
qed

lemma log_reads_error: "log_reads (error_result e) = None"
  by (simp add: log_reads_def error_result_def)

lemma conforming_goes_on:
  assumes "conforming (service (build_request loadable img p s))"
  shows "\<exists>d. analyze_panel service loadable img p s sid pid = Inr d \<and> log_reads d = None"
proof (cases "service (build_request loadable img p s)")
  case (ApiError e)
  then show ?thesis
    by (simp add: analyze_panel_cases log_reads_enrich log_reads_error)
next
  case (BadJson e)
  then show ?thesis
    by (simp add: analyze_panel_cases log_reads_enrich log_reads_error)
next
  case (Parsed v)
  then obtain d where v: "v = JObject d"
    using assms by (cases v) (simp_all add: conforming_def)
  have "log_reads d = None"
    using assms Parsed v
    by (auto simp: conforming_def log_reads_def split: option.splits json.splits)
  then show ?thesis
    using Parsed v by (simp add: analyze_panel_cases log_reads_enrich)
qed

lemma scene_loop_map:
  assumes "\<forall>p \<in> set ps. \<not> skipped flt (length imgs) p \<longrightarrow>
             conforming (service (build_request loadable (imgs ! nat (panel_index p - 1)) p scene))"
  shows "scene_loop service loadable imgs flt scene ps results =
     Inr (results @
          map (\<lambda>p. projr (analyze_panel service loadable (imgs ! nat (panel_index p - 1)) p scene
                            (scene_id scene) (panel_index p)))
            (filter (\<lambda>p. \<not> skipped flt (length imgs) p) ps))"
  using assms
proof (induction ps arbitrary: results)
  case Nil
  then show ?case by simp
next
  case (Cons p ps)
  have rest: "\<forall>p \<in> set ps. \<not> skipped flt (length imgs) p \<longrightarrow>
             conforming (service (build_request loadable (imgs ! nat (panel_index p - 1)) p scene))"
    using Cons.prems by simp
  show ?case
  proof (cases "skipped flt (length imgs) p")
    case True
    then show ?thesis using Cons.IH [OF rest] by simp
  next
    case False
    then have "conforming (service (build_request loadable (imgs ! nat (panel_index p - 1)) p scene))"
      using Cons.prems by simp
    with conforming_goes_on [of service loadable "imgs ! nat (panel_index p - 1)" p scene
        "scene_id scene" "panel_index p"]
    obtain d where d: "analyze_panel service loadable (imgs ! nat (panel_index p - 1)) p scene
        (scene_id scene) (panel_index p) = Inr d" and l: "log_reads d = None"
      by blast
    show ?thesis
      using False Cons.IH [OF rest, of "results @ [d]"] d l by simp
  qed
qed


lemma process_scene_report:
  assumes "slice_grid img_size n (contains grid_format ''dual'') = Inr imgs"
    and "kept = filter (\<lambda>p. \<not> skipped flt (length imgs) p) (sort_key panel_index (panels scene))"
    and "\<forall>p \<in> set kept.
           conforming (service (build_request loadable (imgs ! nat (panel_index p - 1)) p scene))"
  shows "process_scene service loadable (Some img_size) scene grid_format n flt =
     Inr (map (\<lambda>p. projr (analyze_panel service loadable (imgs ! nat (panel_index p - 1)) p scene
                            (scene_id scene) (panel_index p))) kept)"
proof -
  have "\<forall>p \<in> set (sort_key panel_index (panels scene)). \<not> skipped flt (length imgs) p \<longrightarrow>
          conforming (service (build_request loadable (imgs ! nat (panel_index p - 1)) p scene))"
    using assms(2,3) by simp
  from scene_loop_map [OF this, of "[]"] show ?thesis
    using assms(1,2) by (simp add: process_scene_def)
qed

lemma error_result_fields:
  "map_of (enrich (error_result e) sid pid ex ld) ''needs_refinement'' = Some (JBool True)"
  "map_of (enrich (error_result e) sid pid ex ld) ''fidelity'' = Some (JInt 0)"
  "map_of (enrich (error_result e) sid pid ex ld) ''character_consistency'' = Some (JInt 0)"
  "map_of (enrich (error_result e) sid pid ex ld) ''composition_match'' = Some (JInt 0)"
  "map_of (enrich (error_result e) sid pid ex ld) ''artifacts''
     = Some (JList [JString (''API_ERROR: '' @ take 200 e)])"
  by (simp_all add: map_of_enrich error_result_def)

lemma analyze_panel_failed:
  assumes "service (build_request loadable img p s) = ApiError e \<or>
           service (build_request loadable img p s) = BadJson e"
  shows "analyze_panel service loadable img p s sid pid =
           Inr (enrich (error_result e) sid pid (references p)
                  (filter loadable (take MAX_REFS_PER_PANEL (references p))))"
  using assms by (auto simp: analyze_panel_cases)







lemma conforming_good: "conforming (Parsed (JObject good_fields))"
  by (simp add: conforming_def good_fields_def)




text \<open>
  Claim C5, as the code has it. The score fields, \<open>needs_refinement\<close> and
  \<open>refinement_prompt\<close> of a directive are those of the object the scoring service
  returned, unchanged: nothing is capped or validated. So the three scores lie in 0 to
  10, and a directive with \<open>needs_refinement = false\<close> has an empty \<open>refinement_prompt\<close>,
  whenever the returned object is so. After a failed call or an unparseable answer the
  three scores are 0 and \<open>needs_refinement\<close> is true.
\<close>

theorem analyze_panel_scores_passthrough:
  assumes "analyze_panel service loadable img p s sid pid = Inr d"
  shows "(\<forall>obj. service (build_request loadable img p s) = Parsed (JObject obj) \<longrightarrow>
            map_of d ''fidelity'' = map_of obj ''fidelity'' \<and>
            map_of d ''character_consistency'' = map_of obj ''character_consistency'' \<and>
            map_of d ''composition_match'' = map_of obj ''composition_match'' \<and>
            map_of d ''needs_refinement'' = map_of obj ''needs_refinement'' \<and>
            map_of d ''refinement_prompt'' = map_of obj ''refinement_prompt'' \<and>
            (\<forall>f c m.
               map_of obj ''fidelity'' = Some (JInt f) \<and> 0 \<le> f \<and> f \<le> 10 \<and>
               map_of obj ''character_consistency'' = Some (JInt c) \<and> 0 \<le> c \<and> c \<le> 10 \<and>
               map_of obj ''composition_match'' = Some (JInt m) \<and> 0 \<le> m \<and> m \<le> 10 \<and>
               (map_of obj ''needs_refinement'' = Some (JBool False) \<longrightarrow>
                  map_of obj ''refinement_prompt'' = Some (JString []))
               \<longrightarrow> map_of d ''fidelity'' = Some (JInt f) \<and> 0 \<le> f \<and> f \<le> 10 \<and>
                   map_of d ''character_consistency'' = Some (JInt c) \<and> 0 \<le> c \<and> c \<le> 10 \<and>
                   map_of d ''composition_match'' = Some (JInt m) \<and> 0 \<le> m \<and> m \<le> 10 \<and>
                   (map_of d ''needs_refinement'' = Some (JBool False) \<longrightarrow>
                      map_of d ''refinement_prompt'' = Some (JString [])))) \<and>
         (\<forall>e. service (build_request loadable img p s) = ApiError e \<or>
               service (build_request loadable img p s) = BadJson e \<longrightarrow>
            map_of d ''fidelity'' = Some (JInt 0) \<and>
            map_of d ''character_consistency'' = Some (JInt 0) \<and>
            map_of d ''composition_match'' = Some (JInt 0) \<and>
            map_of d ''needs_refinement'' = Some (JBool True))"
proof (intro conjI allI impI)
  fix obj
  assume a: "service (build_request loadable img p s) = Parsed (JObject obj)"
  then have d: "d = enrich obj sid pid (references p)
                      (filter loadable (take MAX_REFS_PER_PANEL (references p)))"
    using assms by (simp add: analyze_panel_cases)
  show f: "map_of d ''fidelity'' = map_of obj ''fidelity''"
    and c: "map_of d ''character_consistency'' = map_of obj ''character_consistency''"
    and m: "map_of d ''composition_match'' = map_of obj ''composition_match''"
    and n: "map_of d ''needs_refinement'' = map_of obj ''needs_refinement''"
    and r: "map_of d ''refinement_prompt'' = map_of obj ''refinement_prompt''"
    unfolding d by (simp_all add: map_of_enrich)
  fix f' c' m'
  assume b: "map_of obj ''fidelity'' = Some (JInt f') \<and> 0 \<le> f' \<and> f' \<le> 10 \<and>
               map_of obj ''character_consistency'' = Some (JInt c') \<and> 0 \<le> c' \<and> c' \<le> 10 \<and>
               map_of obj ''composition_match'' = Some (JInt m') \<and> 0 \<le> m' \<and> m' \<le> 10 \<and>
               (map_of obj ''needs_refinement'' = Some (JBool False) \<longrightarrow>
                  map_of obj ''refinement_prompt'' = Some (JString []))"
  show "map_of d ''fidelity'' = Some (JInt f')" "0 \<le> f'" "f' \<le> 10"
    "map_of d ''character_consistency'' = Some (JInt c')" "0 \<le> c'" "c' \<le> 10"
    "map_of d ''composition_match'' = Some (JInt m')" "0 \<le> m'" "m' \<le> 10"
    using b f c m by simp_all
  assume "map_of d ''needs_refinement'' = Some (JBool False)"
  then show "map_of d ''refinement_prompt'' = Some (JString [])"
    using b n r by simp
next
  fix e
  assume "service (build_request loadable img p s) = ApiError e \<or>
               service (build_request loadable img p s) = BadJson e"
  from analyze_panel_failed [of service loadable img p s e sid pid] this assms
  have d: "d = enrich (error_result e) sid pid (references p)
                      (filter loadable (take MAX_REFS_PER_PANEL (references p)))"
    by simp
  show "map_of d ''fidelity'' = Some (JInt 0)"
    "map_of d ''character_consistency'' = Some (JInt 0)"
    "map_of d ''composition_match'' = Some (JInt 0)"
    "map_of d ''needs_refinement'' = Some (JBool True)"
    unfolding d by (simp_all add: error_result_fields)
qed

text \<open>The theorem at a panel of Scenario D, scored by the service that always passes.\<close>

theorem analyze_panel_scores_passthrough_witness:
  "analyze_panel all_good_scoring no_refs (0, 0, 400, 400) (mk_panel 1 ''one'' ''one end'')
       scenario_d 1 1
     = Inr (enrich good_fields 1 1 [] []) \<and>
   map_of (enrich good_fields 1 1 [] []) ''fidelity'' = Some (JInt 8) \<and>
   map_of (enrich good_fields 1 1 [] []) ''character_consistency'' = Some (JInt 7) \<and>
   map_of (enrich good_fields 1 1 [] []) ''composition_match'' = Some (JInt 9) \<and>
   map_of (enrich good_fields 1 1 [] []) ''needs_refinement'' = Some (JBool False) \<and>
   map_of (enrich good_fields 1 1 [] []) ''refinement_prompt'' = Some (JString [])"
proof -
  have run: "analyze_panel all_good_scoring no_refs (0, 0, 400, 400) (mk_panel 1 ''one'' ''one end'')
       scenario_d 1 1 = Inr (enrich good_fields 1 1 [] [])"
    by (simp add: analyze_panel_cases all_good_scoring_def mk_panel_def)
  have ans: "all_good_scoring
       (build_request no_refs (0, 0, 400, 400) (mk_panel 1 ''one'' ''one end'') scenario_d)
     = Parsed (JObject good_fields)"
    by (simp add: all_good_scoring_def)
  from analyze_panel_scores_passthrough [OF run, THEN conjunct1, rule_format, OF ans]
  have "map_of (enrich good_fields 1 1 [] []) ''fidelity'' = map_of good_fields ''fidelity'' \<and>
      map_of (enrich good_fields 1 1 [] []) ''character_consistency'' = map_of good_fields ''character_consistency'' \<and>
      map_of (enrich good_fields 1 1 [] []) ''composition_match'' = map_of good_fields ''composition_match'' \<and>
      map_of (enrich good_fields 1 1 [] []) ''needs_refinement'' = map_of good_fields ''needs_refinement'' \<and>
      map_of (enrich good_fields 1 1 [] []) ''refinement_prompt'' = map_of good_fields ''refinement_prompt''"
    by blast
  then show ?thesis
    using run by (simp add: good_fields_def)
qed

text \<open>
  Against claim C5 as stated: a returned object with the scores 11, 12 and -1 and with
  a refinement prompt on a passing panel goes into the directive as it is.
\<close>

theorem analyze_panel_range_counterexample:
  "analyze_panel overscoring no_refs (0, 0, 400, 400) (mk_panel 1 ''one'' ''one end'')
       scenario_d 1 1
     = Inr (enrich over_fields 1 1 [] []) \<and>
   map_of (enrich over_fields 1 1 [] []) ''fidelity'' = Some (JInt 11) \<and>
   map_of (enrich over_fields 1 1 [] []) ''character_consistency'' = Some (JInt 12) \<and>
   map_of (enrich over_fields 1 1 [] []) ''composition_match'' = Some (JInt (- 1)) \<and>
   map_of (enrich over_fields 1 1 [] []) ''needs_refinement'' = Some (JBool False) \<and>
   map_of (enrich over_fields 1 1 [] []) ''refinement_prompt'' = Some (JString ''redo the face'')"
  by (simp add: analyze_panel_cases overscoring_def mk_panel_def map_of_enrich over_fields_def)


lemma length_slice_cells:
  "length (map (\<lambda>(r, c). (c * pw, r * ph, (c + 1) * pw, (r + 1) * ph)) (grid_cells cols rows))
     = nat rows * nat cols"
  by (simp add: length_grid_cells)

lemma kept_in_range:
  assumes "\<not> skipped flt m q"
  shows "nat (panel_index q - 1) < m"
  using assms by (auto simp: skipped_def)

lemma analyze_panel_object:
  assumes "service (build_request loadable img p s) = Parsed (JObject obj)"
  shows "analyze_panel service loadable img p s sid pid =
           Inr (enrich obj sid pid (references p)
                  (filter loadable (take MAX_REFS_PER_PANEL (references p))))"
  using assms by (simp add: analyze_panel_cases)

lemma analyze_panel_cong:
  assumes "service (build_request loadable img p s) = service' (build_request loadable img p s)"
  shows "analyze_panel service loadable img p s sid pid = analyze_panel service' loadable img p s sid pid"
  using assms by (simp add: analyze_panel_cases)

lemma scene_loop_cong:
  assumes "\<forall>p \<in> set ps. \<not> skipped flt (length imgs) p \<longrightarrow>
             service (build_request loadable (imgs ! nat (panel_index p - 1)) p scene)
               = service' (build_request loadable (imgs ! nat (panel_index p - 1)) p scene)"
  shows "scene_loop service loadable imgs flt scene ps results
           = scene_loop service' loadable imgs flt scene ps results"
  using assms
proof (induction ps arbitrary: results)
  case Nil
  then show ?case by simp
next
  case (Cons p ps)
  have rest: "\<forall>p \<in> set ps. \<not> skipped flt (length imgs) p \<longrightarrow>
             service (build_request loadable (imgs ! nat (panel_index p - 1)) p scene)
               = service' (build_request loadable (imgs ! nat (panel_index p - 1)) p scene)"
    using Cons.prems by simp
  show ?case
  proof (cases "skipped flt (length imgs) p")
    case True
    then show ?thesis using Cons.IH [OF rest] by simp
  next
    case False
    then have "service (build_request loadable (imgs ! nat (panel_index p - 1)) p scene)
               = service' (build_request loadable (imgs ! nat (panel_index p - 1)) p scene)"
      using Cons.prems by simp
    then have a: "analyze_panel service loadable (imgs ! nat (panel_index p - 1)) p scene
                    (scene_id scene) (panel_index p)
                = analyze_panel service' loadable (imgs ! nat (panel_index p - 1)) p scene
                    (scene_id scene) (panel_index p)"
      by (rule analyze_panel_cong)
    show ?thesis
      using False a Cons.IH [OF rest] by (simp split: sum.splits option.splits)
  qed
qed

lemma process_scene_cong:
  assumes "slice_grid img_size n (contains grid_format ''dual'') = Inr imgs"
    and "kept = filter (\<lambda>p. \<not> skipped flt (length imgs) p) (sort_key panel_index (panels scene))"
    and "\<forall>i < length kept.
           service (build_request loadable (imgs ! nat (panel_index (kept ! i) - 1)) (kept ! i) scene)
             = service' (build_request loadable (imgs ! nat (panel_index (kept ! i) - 1)) (kept ! i) scene)"
  shows "process_scene service loadable (Some img_size) scene grid_format n flt
           = process_scene service' loadable (Some img_size) scene grid_format n flt"
proof -
  have "\<forall>p \<in> set kept.
           service (build_request loadable (imgs ! nat (panel_index p - 1)) p scene)
             = service' (build_request loadable (imgs ! nat (panel_index p - 1)) p scene)"
    using assms(3) by (auto simp: in_set_conv_nth)
  then have "\<forall>p \<in> set (sort_key panel_index (panels scene)). \<not> skipped flt (length imgs) p \<longrightarrow>
           service (build_request loadable (imgs ! nat (panel_index p - 1)) p scene)
             = service' (build_request loadable (imgs ! nat (panel_index p - 1)) p scene)"
    unfolding assms(2) by simp
  from scene_loop_cong [OF this] show ?thesis
    using assms(1) by (simp add: process_scene_def)
qed


text \<open>
  Claim C10. Let the format of the composite contain \<open>dual\<close>, let the grid have a row
  (otherwise the division raises), let \<open>P\<close> be the crops that the re-slice of the quality
  gate returns, and \<open>kept\<close> the panels of the scene that are not skipped. Then \<open>P\<close> holds
  one crop per cell and no other: crop number \<open>k\<close> is the cell in column \<open>k mod cols\<close> and
  row \<open>k div cols\<close> of the top half, for an image of height \<open>H \<ge> 0\<close> its lower edge is not
  below the midpoint \<open>H div 2\<close>, and the crops are the boxes of the start files that
  \<open>slice_combined\<close> saves, in the same order; with a positive number of rows there are
  exactly \<open>cols * rows\<close> of them. The request of a kept panel carries the crop of \<open>P\<close> at
  the panel's index, a start crop, and as description the panel's \<open>visual_start\<close>, or
  its \<open>visual_end\<close> when \<open>visual_start\<close> is empty. The outcome of the scene depends on
  the scoring service through its answers to these requests alone: a service that
  answers them in the same way gives the same outcome, whatever it would answer for an
  end crop. And when every answer to a kept panel is one with which the loop goes on,
  the report has one directive per kept panel, in order, made from the answer to that
  panel's request.
\<close>

theorem slice_grid_dual_start_half:
  assumes "grid_dims n = (cols, rows)" and "rows \<noteq> 0" and "contains grid_format ''dual''"
    and "slice_grid (w, h) n True = Inr P"
    and "kept = filter (\<lambda>p. \<not> skipped flt (length P) p) (sort_key panel_index (panels scene))"
  shows "\<exists>S E.
           slice_combined (w, h) sid True n = Inr (S @ E) \<and>
           length S = nat rows * nat cols \<and> P = map snd S \<and>
           length P = nat rows * nat cols \<and>
           (0 < rows \<longrightarrow> int (length P) = cols * rows) \<and>
           (\<forall>k < nat rows * nat cols.
              P ! k = (int (k mod nat cols) * (w div cols),
                       int (k div nat cols) * (h div 2 div rows),
                       (int (k mod nat cols) + 1) * (w div cols),
                       (int (k div nat cols) + 1) * (h div 2 div rows)) \<and>
              (0 \<le> h \<longrightarrow> (int (k div nat cols) + 1) * (h div 2 div rows) \<le> h div 2)) \<and>
           (\<forall>i < length kept.
              nat (panel_index (kept ! i) - 1) < nat rows * nat cols \<and>
              req_image (build_request loadable (P ! nat (panel_index (kept ! i) - 1)) (kept ! i) scene)
                = P ! nat (panel_index (kept ! i) - 1) \<and>
              req_visual (build_request loadable (P ! nat (panel_index (kept ! i) - 1)) (kept ! i) scene)
                = (if visual_start (kept ! i) = [] then visual_end (kept ! i)
                   else visual_start (kept ! i))) \<and>
           (\<forall>service'.
              (\<forall>i < length kept.
                 service (build_request loadable (P ! nat (panel_index (kept ! i) - 1)) (kept ! i) scene)
                   = service' (build_request loadable (P ! nat (panel_index (kept ! i) - 1)) (kept ! i) scene))
              \<longrightarrow> process_scene service loadable (Some (w, h)) scene grid_format n flt
                    = process_scene service' loadable (Some (w, h)) scene grid_format n flt) \<and>
           ((\<forall>i < length kept.
               conforming (service (build_request loadable (P ! nat (panel_index (kept ! i) - 1))
                                      (kept ! i) scene)))
            \<longrightarrow> (\<exists>ds.
                  process_scene service loadable (Some (w, h)) scene grid_format n flt = Inr ds \<and>
                  length ds = length kept \<and>
                  (\<forall>i < length kept.
                     (\<forall>e. service (build_request loadable (P ! nat (panel_index (kept ! i) - 1)) (kept ! i) scene)
                             = ApiError e \<or>
                           service (build_request loadable (P ! nat (panel_index (kept ! i) - 1)) (kept ! i) scene)
                             = BadJson e \<longrightarrow>
                        ds ! i = enrich (error_result e) (scene_id scene) (panel_index (kept ! i))
                                   (references (kept ! i))
                                   (filter loadable (take MAX_REFS_PER_PANEL (references (kept ! i))))) \<and>
                     (\<forall>obj. service (build_request loadable (P ! nat (panel_index (kept ! i) - 1)) (kept ! i) scene)
                             = Parsed (JObject obj) \<longrightarrow>
                        ds ! i = enrich obj (scene_id scene) (panel_index (kept ! i))
                                   (references (kept ! i))
                                   (filter loadable (take MAX_REFS_PER_PANEL (references (kept ! i))))))))"
proof -
  let ?pw = "w div cols" and ?ph = "h div 2 div rows"
  let ?P = "map (\<lambda>(r, c). (c * ?pw, r * ?ph, (c + 1) * ?pw, (r + 1) * ?ph)) (grid_cells cols rows)"
  let ?S = "dual_half sid ''start'' 0 ?pw ?ph (grid_cells cols rows)"
  let ?E = "dual_half sid ''end'' (h div 2) ?pw ?ph (grid_cells cols rows)"
  let ?req = "\<lambda>q. build_request loadable (P ! nat (panel_index q - 1)) q scene"
  let ?dir = "\<lambda>q. projr (analyze_panel service loadable (P ! nat (panel_index q - 1)) q scene
                            (scene_id scene) (panel_index q))"
  have "slice_grid (w, h) n True = Inr ?P"
    using assms(1,2) by (simp add: slice_grid_def Let_def)
  then have P: "P = ?P"
    using assms(4) by simp
  have stage: "slice_combined (w, h) sid True n = Inr (?S @ ?E)"
    using assms(1,2) by (simp add: slice_combined_def Let_def)
  have lenS: "length ?S = nat rows * nat cols"
    by (simp add: length_dual_half length_grid_cells)
  have lenP: "length P = nat rows * nat cols"
    unfolding P by (rule length_slice_cells)
  have same: "P = map snd ?S"
    unfolding P by (rule nth_equalityI) (simp_all add: dual_half_def nth_enumerate_eq split_beta)
  have cnt: "0 < rows \<longrightarrow> int (length P) = cols * rows"
    using grid_dims_cols [OF assms(1)] unfolding lenP by (simp add: mult.commute)
  have nthP: "P ! k = (int (k mod nat cols) * ?pw, int (k div nat cols) * ?ph,
                       (int (k mod nat cols) + 1) * ?pw, (int (k div nat cols) + 1) * ?ph)"
    if "k < nat rows * nat cols" for k
    unfolding P using that by (simp add: length_grid_cells nth_grid_cells)
  have bound: "0 \<le> h \<longrightarrow> (int (k div nat cols) + 1) * ?ph \<le> h div 2"
    if "k < nat rows * nat cols" for k
    using cell_bounds [of h k rows cols] that by blast
  have cells: "\<forall>k < nat rows * nat cols.
              P ! k = (int (k mod nat cols) * (w div cols),
                       int (k div nat cols) * (h div 2 div rows),
                       (int (k mod nat cols) + 1) * (w div cols),
                       (int (k div nat cols) + 1) * (h div 2 div rows)) \<and>
              (0 \<le> h \<longrightarrow> (int (k div nat cols) + 1) * (h div 2 div rows) \<le> h div 2)"
    using nthP bound by blast
  have sl: "slice_grid (w, h) n (contains grid_format ''dual'') = Inr P"
    using assms(3,4) by simp
  have inr: "nat (panel_index (kept ! i) - 1) < nat rows * nat cols" if "i < length kept" for i
  proof -
    have "kept ! i \<in> set kept" using that by simp
    then have "\<not> skipped flt (length P) (kept ! i)"
      unfolding assms(5) by simp
    then show ?thesis
      using kept_in_range [of flt "length P" "kept ! i"] lenP by simp
  qed
  have img: "req_image (?req q) = P ! nat (panel_index q - 1)"
    and vis: "req_visual (?req q) = (if visual_start q = [] then visual_end q else visual_start q)"
    for q
    by (simp_all add: build_request_def visual_desc_def)
  have sent: "\<forall>i < length kept.
              nat (panel_index (kept ! i) - 1) < nat rows * nat cols \<and>
              req_image (?req (kept ! i)) = P ! nat (panel_index (kept ! i) - 1) \<and>
              req_visual (?req (kept ! i))
                = (if visual_start (kept ! i) = [] then visual_end (kept ! i)
                   else visual_start (kept ! i))"
    using inr img vis by blast
  have indep: "\<forall>service'.
              (\<forall>i < length kept. service (?req (kept ! i)) = service' (?req (kept ! i)))
              \<longrightarrow> process_scene service loadable (Some (w, h)) scene grid_format n flt
                    = process_scene service' loadable (Some (w, h)) scene grid_format n flt"
    using process_scene_cong [OF sl assms(5)] by blast
  have err: "?dir q = enrich (error_result e) (scene_id scene) (panel_index q) (references q)
                            (filter loadable (take MAX_REFS_PER_PANEL (references q)))"
    if "service (?req q) = ApiError e \<or> service (?req q) = BadJson e" for q e
    using analyze_panel_failed [of service loadable "P ! nat (panel_index q - 1)" q scene e
        "scene_id scene" "panel_index q"] that
    by simp
  have obj: "?dir q = enrich obj (scene_id scene) (panel_index q) (references q)
                            (filter loadable (take MAX_REFS_PER_PANEL (references q)))"
    if "service (?req q) = Parsed (JObject obj)" for q obj
    using analyze_panel_object [of service loadable "P ! nat (panel_index q - 1)" q scene obj
        "scene_id scene" "panel_index q"] that
    by simp
  have each: "\<forall>i < length kept.
              (\<forall>e. service (?req (kept ! i)) = ApiError e \<or> service (?req (kept ! i)) = BadJson e \<longrightarrow>
                 map ?dir kept ! i = enrich (error_result e) (scene_id scene) (panel_index (kept ! i))
                            (references (kept ! i))
                            (filter loadable (take MAX_REFS_PER_PANEL (references (kept ! i))))) \<and>
              (\<forall>obj. service (?req (kept ! i)) = Parsed (JObject obj) \<longrightarrow>
                 map ?dir kept ! i = enrich obj (scene_id scene) (panel_index (kept ! i))
                            (references (kept ! i))
                            (filter loadable (take MAX_REFS_PER_PANEL (references (kept ! i)))))"
  proof (intro allI impI conjI)
    fix i e assume i: "i < length kept"
      and a: "service (?req (kept ! i)) = ApiError e \<or> service (?req (kept ! i)) = BadJson e"
    show "map ?dir kept ! i = enrich (error_result e) (scene_id scene) (panel_index (kept ! i))
                            (references (kept ! i))
                            (filter loadable (take MAX_REFS_PER_PANEL (references (kept ! i))))"
      using err [OF a] i by simp
  next
    fix i obj' assume i: "i < length kept"
      and a: "service (?req (kept ! i)) = Parsed (JObject obj')"
    show "map ?dir kept ! i = enrich obj' (scene_id scene) (panel_index (kept ! i))
                            (references (kept ! i))
                            (filter loadable (take MAX_REFS_PER_PANEL (references (kept ! i))))"
      using obj [OF a] i by simp
  qed
  have report: "(\<forall>i < length kept. conforming (service (?req (kept ! i))))
            \<longrightarrow> (\<exists>ds.
                  process_scene service loadable (Some (w, h)) scene grid_format n flt = Inr ds \<and>
                  length ds = length kept \<and>
                  (\<forall>i < length kept.
                     (\<forall>e. service (?req (kept ! i)) = ApiError e \<or>
                           service (?req (kept ! i)) = BadJson e \<longrightarrow>
                        ds ! i = enrich (error_result e) (scene_id scene) (panel_index (kept ! i))
                                   (references (kept ! i))
                                   (filter loadable (take MAX_REFS_PER_PANEL (references (kept ! i))))) \<and>
                     (\<forall>obj. service (?req (kept ! i)) = Parsed (JObject obj) \<longrightarrow>
                        ds ! i = enrich obj (scene_id scene) (panel_index (kept ! i))
                                   (references (kept ! i))
                                   (filter loadable (take MAX_REFS_PER_PANEL (references (kept ! i)))))))"
  proof
    assume c: "\<forall>i < length kept. conforming (service (?req (kept ! i)))"
    then have c': "\<forall>p \<in> set kept. conforming (service (?req p))"
      by (auto simp: in_set_conv_nth)
    have run: "process_scene service loadable (Some (w, h)) scene grid_format n flt
               = Inr (map ?dir kept)"
      by (rule process_scene_report [OF sl assms(5) c'])
    have len: "length (map ?dir kept) = length kept"
      by simp
    show "\<exists>ds.
                  process_scene service loadable (Some (w, h)) scene grid_format n flt = Inr ds \<and>
                  length ds = length kept \<and>
                  (\<forall>i < length kept.
                     (\<forall>e. service (?req (kept ! i)) = ApiError e \<or>
                           service (?req (kept ! i)) = BadJson e \<longrightarrow>
                        ds ! i = enrich (error_result e) (scene_id scene) (panel_index (kept ! i))
                                   (references (kept ! i))
                                   (filter loadable (take MAX_REFS_PER_PANEL (references (kept ! i))))) \<and>
                     (\<forall>obj. service (?req (kept ! i)) = Parsed (JObject obj) \<longrightarrow>
                        ds ! i = enrich obj (scene_id scene) (panel_index (kept ! i))
                                   (references (kept ! i))
                                   (filter loadable (take MAX_REFS_PER_PANEL (references (kept ! i))))))"
      apply (rule exI [of _ "map ?dir kept"])
      apply (intro conjI)
      apply (rule run len each)+
      done
  qed
  show ?thesis
    apply (rule exI [of _ ?S])
    apply (rule exI [of _ ?E])
    apply (intro conjI)
    apply (rule stage lenS same lenP cnt cells sent indep report)+
    done
qed


lemma dual_grid_is_dual: "contains ''dual_grid_animation'' ''dual''"
  by code_simp

lemma slice_grid_dual_nine:
  "slice_grid (1200, 1200) 9 True =
     Inr [(0, 0, 400, 200), (400, 0, 800, 200), (800, 0, 1200, 200), (0, 200, 400, 400), (400, 200, 800, 400), (800, 200, 1200, 400), (0, 400, 400, 600), (400, 400, 800, 600), (800, 400, 1200, 600)]"
  by (simp add: slice_grid_def grid_dims_def grid_cells_def py_range_3)

text \<open>
  The theorem at a dual 1200 by 1200 composite for 9 panels, and at a scene whose
  second panel has an empty \<open>visual_start\<close>.
\<close>

theorem slice_grid_dual_start_half_witness:
  "\<exists>P ds. slice_grid (1200, 1200) 9 True = Inr P \<and> length P = 9 \<and>
      P ! 1 = (400, 0, 800, 200) \<and> P ! 8 = (800, 400, 1200, 600) \<and>
      process_scene all_good_scoring no_refs (Some (1200, 1200)) scenario_dual
        ''dual_grid_animation'' 9 None = Inr ds \<and>
      length ds = 2 \<and>
      req_image (build_request no_refs (P ! 1) (mk_panel 2 [] ''end only'') scenario_dual)
        = (400, 0, 800, 200) \<and>
      req_visual (build_request no_refs (P ! 1) (mk_panel 2 [] ''end only'') scenario_dual)
        = ''end only'' \<and>
      ds ! 1 = enrich good_fields 3 2 [] []"
proof -
  define P :: "box list" where "P = [(0, 0, 400, 200), (400, 0, 800, 200), (800, 0, 1200, 200), (0, 200, 400, 400), (400, 200, 800, 400), (800, 200, 1200, 400), (0, 400, 400, 600), (400, 400, 800, 600), (800, 400, 1200, 600)]"
  have g: "grid_dims 9 = (3, 3)"
    by (simp add: grid_dims_def)
  have r: "(3::int) \<noteq> 0"
    by simp
  have sl: "slice_grid (1200, 1200) 9 True = Inr P"
    by (simp only: slice_grid_dual_nine P_def)
  have len: "length P = 9"
    by (simp add: P_def)
  have ps: "panels scenario_dual = [mk_panel 1 ''one'' ''one end'', mk_panel 2 [] ''end only'']"
    by (simp add: scenario_dual_def)
  have kept: "panels scenario_dual
      = filter (\<lambda>p. \<not> skipped None (length P) p) (sort_key panel_index (panels scenario_dual))"
    unfolding len ps by (simp add: mk_panel_def skipped_def)
  have conf: "\<forall>i < length (panels scenario_dual).
           conforming (all_good_scoring (build_request no_refs
              (P ! nat (panel_index (panels scenario_dual ! i) - 1)) (panels scenario_dual ! i) scenario_dual))"
    by (simp add: all_good_scoring_def conforming_good)
  note inst = slice_grid_dual_start_half [OF g r dual_grid_is_dual sl kept,
      where service = all_good_scoring and loadable = no_refs and sid = 7]
  from inst obtain S E where
    sent: "\<forall>i < length (panels scenario_dual).
       nat (panel_index (panels scenario_dual ! i) - 1) < nat 3 * nat 3 \<and>
       req_image (build_request no_refs (P ! nat (panel_index (panels scenario_dual ! i) - 1))
                    (panels scenario_dual ! i) scenario_dual)
                = P ! nat (panel_index (panels scenario_dual ! i) - 1) \<and>
       req_visual (build_request no_refs (P ! nat (panel_index (panels scenario_dual ! i) - 1))
                    (panels scenario_dual ! i) scenario_dual)
                = (if visual_start (panels scenario_dual ! i) = []
                   then visual_end (panels scenario_dual ! i)
                   else visual_start (panels scenario_dual ! i))"
    and rep: "(\<forall>i < length (panels scenario_dual).
               conforming (all_good_scoring (build_request no_refs
                  (P ! nat (panel_index (panels scenario_dual ! i) - 1)) (panels scenario_dual ! i) scenario_dual)))
            \<longrightarrow> (\<exists>ds.
                  process_scene all_good_scoring no_refs (Some (1200, 1200)) scenario_dual
                    ''dual_grid_animation'' 9 None = Inr ds \<and>
                  length ds = length (panels scenario_dual) \<and>
                  (\<forall>i < length (panels scenario_dual).
                     (\<forall>e. all_good_scoring (build_request no_refs (P ! nat (panel_index (panels scenario_dual ! i) - 1)) (panels scenario_dual ! i) scenario_dual)
                             = ApiError e \<or>
                           all_good_scoring (build_request no_refs (P ! nat (panel_index (panels scenario_dual ! i) - 1)) (panels scenario_dual ! i) scenario_dual)
                             = BadJson e \<longrightarrow>
                        ds ! i = enrich (error_result e) (scene_id scenario_dual) (panel_index (panels scenario_dual ! i))
                                   (references (panels scenario_dual ! i))
                                   (filter no_refs (take MAX_REFS_PER_PANEL (references (panels scenario_dual ! i))))) \<and>
                     (\<forall>obj. all_good_scoring (build_request no_refs (P ! nat (panel_index (panels scenario_dual ! i) - 1)) (panels scenario_dual ! i) scenario_dual)
                             = Parsed (JObject obj) \<longrightarrow>
                        ds ! i = enrich obj (scene_id scenario_dual) (panel_index (panels scenario_dual ! i))
                                   (references (panels scenario_dual ! i))
                                   (filter no_refs (take MAX_REFS_PER_PANEL (references (panels scenario_dual ! i)))))))"
    by (elim exE conjE) blast
  from rep conf obtain ds where run: "process_scene all_good_scoring no_refs (Some (1200, 1200)) scenario_dual
        ''dual_grid_animation'' 9 None = Inr ds"
    and lds: "length ds = length (panels scenario_dual)"
    and each: "\<forall>i < length (panels scenario_dual).
       (\<forall>obj. all_good_scoring
                 (build_request no_refs (P ! nat (panel_index (panels scenario_dual ! i) - 1))
                    (panels scenario_dual ! i) scenario_dual)
                      = Parsed (JObject obj) \<longrightarrow>
                 ds ! i = enrich obj (scene_id scenario_dual) (panel_index (panels scenario_dual ! i))
                            (references (panels scenario_dual ! i))
                            (filter no_refs (take MAX_REFS_PER_PANEL (references (panels scenario_dual ! i)))))"
    by blast
  have one: "(1::nat) < length (panels scenario_dual)"
    by (simp add: ps)
  have p1: "panels scenario_dual ! 1 = mk_panel 2 [] ''end only''"
    by (simp add: ps)
  have k: "nat (panel_index (mk_panel 2 [] ''end only'') - 1) = 1"
    by (simp add: mk_panel_def)
  from sent one have e1: "req_image (build_request no_refs (P ! nat (panel_index (panels scenario_dual ! 1) - 1))
                    (panels scenario_dual ! 1) scenario_dual)
                = P ! nat (panel_index (panels scenario_dual ! 1) - 1)"
    and e2: "req_visual (build_request no_refs (P ! nat (panel_index (panels scenario_dual ! 1) - 1))
                    (panels scenario_dual ! 1) scenario_dual)
                = (if visual_start (panels scenario_dual ! 1) = []
                   then visual_end (panels scenario_dual ! 1)
                   else visual_start (panels scenario_dual ! 1))"
    by blast+
  from each one have e3: "\<forall>obj. all_good_scoring
                 (build_request no_refs (P ! nat (panel_index (panels scenario_dual ! 1) - 1))
                    (panels scenario_dual ! 1) scenario_dual)
                      = Parsed (JObject obj) \<longrightarrow>
                 ds ! 1 = enrich obj (scene_id scenario_dual) (panel_index (panels scenario_dual ! 1))
                            (references (panels scenario_dual ! 1))
                            (filter no_refs (take MAX_REFS_PER_PANEL (references (panels scenario_dual ! 1))))"
    by blast
  have P1: "P ! 1 = (400, 0, 800, 200)" and P8: "P ! 8 = (800, 400, 1200, 600)"
    by (simp_all add: P_def)
  have a: "req_image (build_request no_refs (P ! 1) (mk_panel 2 [] ''end only'') scenario_dual)
        = (400, 0, 800, 200)"
    using e1 unfolding p1 k P1 .
  have b: "req_visual (build_request no_refs (P ! 1) (mk_panel 2 [] ''end only'') scenario_dual)
        = ''end only''"
    using e2 unfolding p1 k by (simp add: mk_panel_def)
  have "all_good_scoring (build_request no_refs (P ! 1) (mk_panel 2 [] ''end only'') scenario_dual)
          = Parsed (JObject good_fields)"
    by (simp add: all_good_scoring_def)
  with e3 have "ds ! 1 = enrich good_fields (scene_id scenario_dual) (panel_index (mk_panel 2 [] ''end only''))
                            (references (mk_panel 2 [] ''end only''))
                            (filter no_refs (take MAX_REFS_PER_PANEL (references (mk_panel 2 [] ''end only''))))"
    unfolding p1 k by blast
  then have c: "ds ! 1 = enrich good_fields 3 2 [] []"
    by (simp add: scenario_dual_def mk_panel_def)
  have l2: "length ds = 2"
    using lds by (simp add: ps)
  have "slice_grid (1200, 1200) 9 True = Inr P \<and> length P = 9 \<and>
      P ! 1 = (400, 0, 800, 200) \<and> P ! 8 = (800, 400, 1200, 600) \<and>
      process_scene all_good_scoring no_refs (Some (1200, 1200)) scenario_dual
        ''dual_grid_animation'' 9 None = Inr ds \<and>
      length ds = 2 \<and>
      req_image (build_request no_refs (P ! 1) (mk_panel 2 [] ''end only'') scenario_dual)
        = (400, 0, 800, 200) \<and>
      req_visual (build_request no_refs (P ! 1) (mk_panel 2 [] ''end only'') scenario_dual)
        = ''end only'' \<and>
      ds ! 1 = enrich good_fields 3 2 [] []"
    using sl len P1 P8 run l2 a b c by (intro conjI)
  then show ?thesis
    by (intro exI)
qed

section \<open>Disk, registry and service calls (01_cinematic_preroll.py)\<close>

text \<open>
  The files the pipeline reads and writes: the images and description documents of the
  reference directory, addressed by the stem of their name, and the files of the output
  directory and of its panels directory, addressed by name.
\<close>

datatype path = RefPng string | RefJson string | OutFile string | PanelFile string

text \<open>An entry of the answer of the casting service (\<open>CHARACTER_SCHEMA\<close>).\<close>

record reference =
  name :: string
  ref_type :: string
  ref_visual_desc :: string
  video_visual_desc :: string
  style_reference :: string

text \<open>An episode of the screenplay; the code only ever serialises it into prompts.\<close>

record episode =
  episode_id :: int
  ep_location :: string
  daytime :: string
  raw_narrative :: string
  screenplay_instructions :: string

text \<open>
  The content of a file: an image as it came from the image service (an opaque
  identity and its size), a crop of an image, or one of the JSON documents.
\<close>

datatype content =
  Picture nat "int \<times> int"
| Crop box content
| ReferenceDoc reference
| EpisodesDoc "episode list option"
| ScenesDoc "scene list"

text \<open>The calls to the generative services, as they are logged by the model.\<close>

datatype call =
  Screenplay
| Casting
| ReferenceImage string
| SceneAnalysis int
| Refinement int
| Reversal int
| Identify int
| GridImage int

text \<open>
  The state of a run: the disk (an association list, so that a directory can be
  listed), the process-wide registry \<open>CHARACTER_IMAGES\<close> (a dict, which keeps its keys in
  the order of their insertion, as an association list does) and the log of service
  calls.
\<close>

record state =
  files :: "(path \<times> content) list"
  CHARACTER_IMAGES :: "(string \<times> path) list"
  calls :: "call list"

definition exists_file :: "state \<Rightarrow> path \<Rightarrow> bool" where
  "exists_file st p = (map_of (files st) p \<noteq> None)"

definition write_file :: "path \<Rightarrow> content \<Rightarrow> state \<Rightarrow> state" where
  "write_file p c st = st\<lparr>files := AList.update p c (files st)\<rparr>"

definition log_call :: "call \<Rightarrow> state \<Rightarrow> state" where
  "log_call c st = st\<lparr>calls := calls st @ [c]\<rparr>"

text \<open>
  The services, as functions of what the code sends them. The text given to the casting
  service is the raw story or the serialised screenplay. An empty list stands for every
  falsy answer of \<open>generate_json_with_schema\<close> (the empty dict of a failed call too).
\<close>

datatype casting_text = RawText string | ScreenplayText "episode list option"

record services =
  screenplay :: "string \<Rightarrow> episode list option"
  casting :: "casting_text \<Rightarrow> string list \<Rightarrow> reference list"
  reference_image :: "reference \<Rightarrow> content option"
  scene_analysis :: "int \<Rightarrow> episode \<Rightarrow> scene list"
  refinement :: "int \<Rightarrow> scene \<Rightarrow> scene list"
  reversal :: "panel list \<Rightarrow> nat \<Rightarrow> (int \<times> string) list outcome"
  identify :: "scene \<Rightarrow> string list"
  grid_image :: "int \<Rightarrow> nat \<Rightarrow> content outcome"

text \<open>The options of the configuration that the modelled functions read.\<close>

record config =
  format_type :: string
  panels_per_scene :: int
  slicing_enabled :: bool
  casting_enabled :: bool

section \<open>Auto-casting (generate_single_reference, auto_cast_characters)\<close>

text \<open>
  \<open>generate_single_reference\<close>: nothing is done for a name that is a key of the
  registry. Otherwise the description document is written, the image service is called
  once, and only when it returns an image is the image saved and the name registered.
\<close>

definition generate_single_reference :: "services \<Rightarrow> reference \<Rightarrow> state \<Rightarrow> state" where
  "generate_single_reference svc char st =
     (if name char \<in> set (map fst (CHARACTER_IMAGES st)) then st
      else
        (let st1 = write_file (RefJson (safe_name (name char))) (ReferenceDoc char) st;
             st2 = log_call (ReferenceImage (name char)) st1
         in case reference_image svc char of
              None \<Rightarrow> st2
            | Some img \<Rightarrow>
                (write_file (RefPng (safe_name (name char))) img st2)
                  \<lparr>CHARACTER_IMAGES :=
                     AList.update (name char) (RefPng (safe_name (name char)))
                       (CHARACTER_IMAGES st2)\<rparr>))"

text \<open>
  \<open>s.title()\<close>: a letter that follows a letter is lower-cased, every other letter is
  upper-cased.
\<close>

fun title_from :: "bool \<Rightarrow> string \<Rightarrow> string" where
  "title_from previous_is_cased [] = []"
| "title_from previous_is_cased (c # cs) =
     (if previous_is_cased then lower_char c else upper_char c)
       # title_from (is_upper c \<or> is_lower c) cs"

definition title :: "string \<Rightarrow> string" where
  "title s = title_from False s"

text \<open>
  The first loop of \<open>auto_cast_characters\<close>: every image of the reference directory is
  registered under the title-cased stem of its file name, underscores read as spaces.
\<close>

fun load_existing :: "(path \<times> content) list \<Rightarrow> (string \<times> path) list \<Rightarrow> (string \<times> path) list" where
  "load_existing [] images = images"
| "load_existing ((RefPng stem, c) # fs) images =
     load_existing fs
       (AList.update (title (replace_char (CHR ''_'') '' '' stem)) (RefPng stem) images)"
| "load_existing ((f, c) # fs) images = load_existing fs images"

text \<open>
  \<open>auto_cast_characters\<close>. The worker pool runs \<open>generate_single_reference\<close> once per
  returned entry; the model runs them one after the other in the order of the list.
\<close>

definition auto_cast_characters :: "services \<Rightarrow> config \<Rightarrow> casting_text \<Rightarrow> state \<Rightarrow> state" where
  "auto_cast_characters svc cfg text st =
     (let st1 = st\<lparr>CHARACTER_IMAGES := load_existing (files st) (CHARACTER_IMAGES st)\<rparr> in
      if \<not> casting_enabled cfg then st1
      else
        (let existing = map fst (CHARACTER_IMAGES st1);
             st2 = log_call Casting st1;
             new_chars = casting svc text existing
         in if new_chars = [] then st2
            else fold (generate_single_reference svc) new_chars st2))"

section \<open>Grid rendering (generate_combined_grid)\<close>

definition grid_path :: "int \<Rightarrow> path" where
  "grid_path sid = OutFile (''scene_'' @ format_0d 3 sid @ ''_grid_combined.png'')"

text \<open>The references named by the panels of a scene (\<open>chars\<close>, before it is made a set).\<close>

definition scene_references :: "scene \<Rightarrow> string list" where
  "scene_references scene = concat (map references (panels scene))"

text \<open>\<open>Image.open(path).size\<close>: the size of an image file; a document is no image.\<close>

fun image_size :: "content \<Rightarrow> (int \<times> int) option" where
  "image_size (Picture i sz) = Some sz"
| "image_size (Crop (x0, y0, x1, y1) c) = Some (x1 - x0, y1 - y0)"
| "image_size c = None"

text \<open>
  The call of \<open>slice_combined\<close> at the end of \<open>generate_combined_grid\<close>: every crop is
  saved under its name in the panels directory. When the composite cannot be opened, or
  the division by the number of rows raises, nothing is written.
\<close>

definition slice_to_disk :: "config \<Rightarrow> int \<Rightarrow> state \<Rightarrow> state" where
  "slice_to_disk cfg sid st =
     (case map_of (files st) (grid_path sid) of
        None \<Rightarrow> st
      | Some img \<Rightarrow>
          (case image_size img of
             None \<Rightarrow> st
           | Some sz \<Rightarrow>
               (case slice_combined sz sid (format_type cfg = ''dual_grid_animation'')
                       (panels_per_scene cfg) of
                  Inl e \<Rightarrow> st
                | Inr crops \<Rightarrow>
                    fold (\<lambda>(file, crop_box). write_file (PanelFile file) (Crop crop_box img))
                      crops st)))"

text \<open>
  \<open>generate_combined_grid\<close>. When the panels name no reference, the text service is
  asked to identify them. The image service is called, under the retry decorator with
  3 attempts, only when the composite file of the scene does not exist; when that call
  fails for good the function returns without slicing.
\<close>

definition generate_combined_grid :: "services \<Rightarrow> config \<Rightarrow> scene \<Rightarrow> int \<Rightarrow> state \<Rightarrow> state" where
  "generate_combined_grid svc cfg scene sid st =
     (let st1 = (if scene_references scene = [] then log_call (Identify sid) st else st) in
      if exists_file st1 (grid_path sid) then
        (if slicing_enabled cfg then slice_to_disk cfg sid st1 else st1)
      else
        (case retry_on_errors 3 2 (grid_image svc sid) of
           (result, attempts, sleeps) \<Rightarrow>
             (let st2 = st1\<lparr>calls := calls st1 @ replicate attempts (GridImage sid)\<rparr> in
              case result of
                Returned img \<Rightarrow>
                  (let st3 = write_file (grid_path sid) img st2 in
                   if slicing_enabled cfg then slice_to_disk cfg sid st3 else st3)
              | Raised e \<Rightarrow> st2
              | ReturnedNone \<Rightarrow> st2)))"

section \<open>Master scene analysis (refine_single_scene, analyze_scenes_master, main)\<close>

text \<open>The loop of \<open>refine_single_scene\<close> that numbers the panels from 1.\<close>

definition renumber :: "panel list \<Rightarrow> panel list" where
  "renumber ps = map (\<lambda>(k, p). p\<lparr>panel_index := int k + 1\<rparr>) (enumerate 0 ps)"

definition refined_file :: "int \<Rightarrow> path" where
  "refined_file episode_counter =
     OutFile (''animation_episode_scenes_'' @ format_0d 3 episode_counter @ ''_refined.json'')"

definition episode_file :: "int \<Rightarrow> path" where
  "episode_file episode_counter =
     OutFile (''animation_episode_scenes_'' @ format_0d 3 episode_counter @ ''.json'')"

text \<open>
  \<open>refine_single_scene\<close>, one task of the refinement pool. The refinement call cannot
  raise (\<open>generate_json_with_schema\<close> catches), so the retry decorator around it makes
  one call. \<open>[0]\<close> on an empty answer raises \<open>IndexError\<close>: the task ends there, nothing
  is appended to \<open>all_scenes\<close>, and as nobody reads the results of \<open>executor.map\<close> the
  exception is lost. The result is the scene appended to \<open>all_scenes\<close>, if any.
\<close>

definition refine_single_scene ::
  "services \<Rightarrow> int \<Rightarrow> int \<Rightarrow> scene \<Rightarrow> state \<Rightarrow> scene option \<times> state" where
  "refine_single_scene svc episode_counter sid draft st =
     (let st1 = log_call (Refinement sid) st in
      case refinement svc sid draft of
        [] \<Rightarrow> (None, st1)
      | refined # others \<Rightarrow>
          (let refined_scene = refined\<lparr>scene_id := sid, panels := renumber (panels refined)\<rparr>;
               st2 = (if filter is_reversed (panels refined_scene) = [] then st1
                      else log_call (Reversal sid) st1);
               refined_scene' = apply_reversal_pass (reversal svc) refined_scene
           in (Some refined_scene',
               write_file (refined_file episode_counter) (ScenesDoc [refined_scene']) st2)))"

text \<open>The refinement pool over \<open>batch_refinement\<close>, task after task.\<close>

fun refine_all ::
  "services \<Rightarrow> (int \<times> int \<times> scene) list \<Rightarrow> state \<Rightarrow> scene list \<times> state" where
  "refine_all svc [] st = ([], st)"
| "refine_all svc ((episode_counter, sid, draft) # rest) st =
     (case refine_single_scene svc episode_counter sid draft st of
        (result, st1) \<Rightarrow>
          (case refine_all svc rest st1 of
             (scenes, st2) \<Rightarrow>
               ((case result of None \<Rightarrow> scenes | Some s \<Rightarrow> s # scenes), st2)))"

text \<open>
  The sequential pass between the two pools: the scene drafts of the episodes, sorted
  by episode, get the numbers 1, 2, ... of \<open>scene_counter\<close>.
\<close>

definition number_scenes :: "(int \<times> scene list) list \<Rightarrow> (int \<times> int \<times> scene) list" where
  "number_scenes all_episodes =
     map (\<lambda>(k, (episode_counter, scene)). (episode_counter, int k + 1, scene))
       (enumerate 0
          (concat (map (\<lambda>(episode_counter, data). map (\<lambda>scene. (episode_counter, scene)) data)
                     (sort_key fst all_episodes))))"

text \<open>
  \<open>analyze_scenes_master\<close>. The two pools append their results to shared lists in the
  order in which the tasks complete: \<open>analysis_order\<close> and \<open>refinement_order\<close> are those
  orders, as rearrangements of the lists in task order. Iterating over
  \<open>episodes.get('episodes')\<close> raises \<open>TypeError\<close> when the screenplay has no episode list.
\<close>

definition analyze_scenes_master ::
  "services \<Rightarrow> config \<Rightarrow> ((int \<times> scene list) list \<Rightarrow> (int \<times> scene list) list)
     \<Rightarrow> (scene list \<Rightarrow> scene list) \<Rightarrow> string \<Rightarrow> state \<Rightarrow> (py_error + scene list) \<times> state" where
  "analyze_scenes_master svc cfg analysis_order refinement_order text st =
     (let episodes = screenplay svc text;
          st1 = log_call Screenplay st;
          st2 = auto_cast_characters svc cfg (ScreenplayText episodes) st1;
          st3 = write_file (OutFile ''animation_episodes.json'') (EpisodesDoc episodes) st2
      in case episodes of
           None \<Rightarrow> (Inl TypeError, st3)
         | Some eps \<Rightarrow>
             (let batch_analyze = map (\<lambda>(k, ep). (int k + 1, ep)) (enumerate 0 eps);
                  st4 = fold (\<lambda>(episode_counter, ep). log_call (SceneAnalysis episode_counter))
                          batch_analyze st3;
                  all_episodes =
                    analysis_order
                      (map (\<lambda>(episode_counter, ep).
                              (episode_counter, scene_analysis svc episode_counter ep))
                         batch_analyze);
                  st5 = fold (\<lambda>(episode_counter, data).
                                write_file (episode_file episode_counter) (ScenesDoc data))
                          (sort_key fst all_episodes) st4
              in case refine_all svc (number_scenes all_episodes) st5 of
                   (all_scenes, st6) \<Rightarrow>
                     (Inr (sort_key scene_id (refinement_order all_scenes)), st6)))"

text \<open>
  \<open>main\<close>, for a run without the optional scene argument. The test
  \<open>not data or 'scenes' not in data\<close> never holds for the dict that
  \<open>analyze_scenes_master\<close> returns, so the run goes on to write the metadata; an exception
  of \<open>analyze_scenes_master\<close> ends the run. The grid pool is run scene after scene.
\<close>

definition main ::
  "services \<Rightarrow> config \<Rightarrow> ((int \<times> scene list) list \<Rightarrow> (int \<times> scene list) list)
     \<Rightarrow> (scene list \<Rightarrow> scene list) \<Rightarrow> string \<Rightarrow> state \<Rightarrow> (py_error + unit) \<times> state" where
  "main svc cfg analysis_order refinement_order text st =
     (let st1 = auto_cast_characters svc cfg (RawText text) st in
      case analyze_scenes_master svc cfg analysis_order refinement_order text st1 of
        (Inl e, st2) \<Rightarrow> (Inl e, st2)
      | (Inr scenes, st2) \<Rightarrow>
          (let st3 = write_file (OutFile ''animation_metadata.json'') (ScenesDoc scenes) st2
           in (Inr (),
               fold (\<lambda>scene. generate_combined_grid svc cfg scene (scene_id scene)) scenes st3)))"

section \<open>A run on stub services\<close>

text \<open>
  One identity, services that always answer, and the state that casting the story and
  rendering the grid of the scene of Scenario D leave behind on an empty disk. A new
  process starts with an empty registry and, here, an empty log of calls.
\<close>

definition eckels :: reference where
  "eckels = \<lparr>name = ''Eckels'', ref_type = ''Character'', ref_visual_desc = ''a hunter'',
             video_visual_desc = ''a hunter in khaki'', style_reference = []\<rparr>"

definition stub_services :: services where
  "stub_services =
     \<lparr>screenplay = (\<lambda>text. Some []),
      casting = (\<lambda>text existing. [eckels]),
      reference_image = (\<lambda>char. Some (Picture 1 (768, 1024))),
      scene_analysis = (\<lambda>episode_counter ep. []),
      refinement = (\<lambda>sid draft. [draft]),
      reversal = stub_reversal,
      identify = (\<lambda>scene. []),
      grid_image = (\<lambda>sid attempt. Ok (Picture 2 (1200, 1200)))\<rparr>"

definition stub_config :: config where
  "stub_config = \<lparr>format_type = ''single_grid_animation'', panels_per_scene = 9,
                  slicing_enabled = True, casting_enabled = True\<rparr>"

definition empty_disk :: state where
  "empty_disk = \<lparr>files = [], CHARACTER_IMAGES = [], calls = []\<rparr>"

definition first_run :: state where
  "first_run =
     generate_combined_grid stub_services stub_config scenario_d 1
       (auto_cast_characters stub_services stub_config (RawText ''story'') empty_disk)"

definition new_process :: "state \<Rightarrow> state" where
  "new_process st = st\<lparr>CHARACTER_IMAGES := [], calls := []\<rparr>"

section \<open>Properties of a re-run\<close>

lemma write_file_simps:
  "calls (write_file p c st) = calls st"
  "CHARACTER_IMAGES (write_file p c st) = CHARACTER_IMAGES st"
  "map_of (files (write_file p c st)) = (map_of (files st))(p \<mapsto> c)"
  by (simp_all add: write_file_def update_conv')

lemma log_call_simps:
  "calls (log_call c st) = calls st @ [c]"
  "CHARACTER_IMAGES (log_call c st) = CHARACTER_IMAGES st"
  "files (log_call c st) = files st"
  by (simp_all add: log_call_def)

lemma exists_file_log_call: "exists_file (log_call c st) p = exists_file st p"
  by (simp add: exists_file_def log_call_simps)

lemma fold_crops_calls:
  "calls (fold (\<lambda>(file, crop_box). write_file (PanelFile file) (Crop crop_box img)) crops st) = calls st"
  by (induction crops arbitrary: st) (simp_all add: write_file_simps split_beta)

lemma fold_crops_registry:
  "CHARACTER_IMAGES (fold (\<lambda>(file, crop_box). write_file (PanelFile file) (Crop crop_box img)) crops st)
     = CHARACTER_IMAGES st"
  by (induction crops arbitrary: st) (simp_all add: write_file_simps split_beta)

lemma fold_crops_files:
  "map_of (files (fold (\<lambda>(file, crop_box). write_file (PanelFile file) (Crop crop_box img)) crops st))
     = map_of (files st) ++ map_of (rev (map (\<lambda>(file, crop_box). (PanelFile file, Crop crop_box img)) crops))"
proof (induction crops arbitrary: st)
  case Nil
  then show ?case by simp
next
  case (Cons x xs)
  obtain f b where x: "x = (f, b)" by (cases x)
  have "map_of (files (write_file (PanelFile f) (Crop b img) st)) ++
          map_of (rev (map (\<lambda>(file, crop_box). (PanelFile file, Crop crop_box img)) xs))
      = map_of (files st) ++
          map_of (rev (map (\<lambda>(file, crop_box). (PanelFile file, Crop crop_box img)) (x # xs)))"
    by (rule ext) (simp add: x write_file_simps map_add_def split: option.splits)
  then show ?case
    using Cons [of "write_file (PanelFile f) (Crop b img) st"] by (simp add: x)
qed

lemma fold_crops_other:
  "map_of (files (fold (\<lambda>(file, crop_box). write_file (PanelFile file) (Crop crop_box img)) crops st))
     (OutFile x) = map_of (files st) (OutFile x)"
proof -
  have "map_of (rev (map (\<lambda>(file, crop_box). (PanelFile file, Crop crop_box img)) crops)) (OutFile x) = None"
    by (induction crops) (auto simp: map_add_def split: option.splits)
  then show ?thesis
    by (simp add: fold_crops_files map_add_def)
qed

lemma slice_to_disk_calls: "calls (slice_to_disk cfg sid st) = calls st"
  by (simp add: slice_to_disk_def fold_crops_calls split: option.splits sum.splits)

lemma slice_to_disk_registry: "CHARACTER_IMAGES (slice_to_disk cfg sid st) = CHARACTER_IMAGES st"
  by (simp add: slice_to_disk_def fold_crops_registry split: option.splits sum.splits)

lemma slice_to_disk_other:
  "map_of (files (slice_to_disk cfg sid st)) (OutFile x) = map_of (files st) (OutFile x)"
  by (simp add: slice_to_disk_def fold_crops_other split: option.splits sum.splits)

lemma slice_to_disk_idem:
  "map_of (files (slice_to_disk cfg sid (slice_to_disk cfg sid st)))
     = map_of (files (slice_to_disk cfg sid st))"
proof -
  have g: "map_of (files (slice_to_disk cfg sid st)) (grid_path sid) = map_of (files st) (grid_path sid)"
    by (simp add: grid_path_def slice_to_disk_other)
  show ?thesis
  proof (cases "map_of (files st) (grid_path sid)")
    case None
    then show ?thesis by (simp add: slice_to_disk_def)
  next
    case (Some img)
    show ?thesis
    proof (cases "image_size img")
      case None
      then show ?thesis using Some by (simp add: slice_to_disk_def)
    next
      case sz: (Some sz)
      show ?thesis
      proof (cases "slice_combined sz sid (format_type cfg = ''dual_grid_animation'') (panels_per_scene cfg)")
        case (Inl e)
        then show ?thesis using Some sz by (simp add: slice_to_disk_def)
      next
        case (Inr crops)
        let ?F = "fold (\<lambda>(file, crop_box). write_file (PanelFile file) (Crop crop_box img)) crops"
        have one: "slice_to_disk cfg sid st = ?F st"
          using Some sz Inr by (simp add: slice_to_disk_def)
        have "map_of (files (?F st)) (grid_path sid) = Some img"
          using g Some unfolding one by simp
        then have two: "slice_to_disk cfg sid (?F st) = ?F (?F st)"
          using sz Inr by (simp add: slice_to_disk_def)
        have idem: "(m ++ u) ++ u = m ++ u" for m u :: "path \<rightharpoonup> content"
          by (rule ext) (simp add: map_add_def split: option.splits)
        show ?thesis
          unfolding one two by (simp only: fold_crops_files idem)
      qed
    qed
  qed
qed


lemma grid_exists_rerun:
  assumes "exists_file st (grid_path sid)"
  shows "generate_combined_grid svc cfg scene sid st =
     (let st1 = (if scene_references scene = [] then log_call (Identify sid) st else st)
      in if slicing_enabled cfg then slice_to_disk cfg sid st1 else st1)"
  using assms by (simp add: generate_combined_grid_def Let_def exists_file_log_call)

lemma grid_exists_after:
  assumes "exists_file st (grid_path sid)"
  shows "exists_file (generate_combined_grid svc cfg scene sid st) (grid_path sid)"
  using assms
  by (simp add: grid_exists_rerun Let_def exists_file_def grid_path_def slice_to_disk_other
      log_call_simps)

lemma grid_exists_calls:
  assumes "exists_file st (grid_path sid)"
  shows "calls (generate_combined_grid svc cfg scene sid st)
           = calls st @ (if scene_references scene = [] then [Identify sid] else [])"
  using assms by (simp add: grid_exists_rerun Let_def slice_to_disk_calls log_call_simps)

lemma grid_exists_composite:
  assumes "exists_file st (grid_path sid)"
  shows "map_of (files (generate_combined_grid svc cfg scene sid st)) (grid_path sid)
           = map_of (files st) (grid_path sid)"
  using assms
  by (simp add: grid_exists_rerun Let_def grid_path_def slice_to_disk_other log_call_simps)

lemma slice_to_disk_log_call:
  "files (slice_to_disk cfg sid (log_call c st)) = files (slice_to_disk cfg sid st)"
proof -
  have f: "files (fold (\<lambda>(file, crop_box). write_file (PanelFile file) (Crop crop_box img)) crops (log_call c st))
         = files (fold (\<lambda>(file, crop_box). write_file (PanelFile file) (Crop crop_box img)) crops st)"
    for img crops
  proof (induction crops arbitrary: st)
    case Nil
    then show ?case by (simp add: log_call_simps)
  next
    case (Cons x xs)
    have "write_file p v (log_call c st) = log_call c (write_file p v st)" for p v
      by (simp add: write_file_def log_call_def)
    then show ?case
      using Cons by (simp add: split_beta)
  qed
  show ?thesis
    by (simp add: slice_to_disk_def log_call_simps f split: option.splits sum.splits)
qed

lemma grid_exists_files:
  assumes "exists_file st (grid_path sid)"
  shows "files (generate_combined_grid svc cfg scene sid st)
           = (if slicing_enabled cfg then files (slice_to_disk cfg sid st) else files st)"
  using assms by (simp add: grid_exists_rerun Let_def slice_to_disk_log_call log_call_simps)

lemma grid_exists_idem:
  assumes "exists_file st (grid_path sid)"
  shows "map_of (files (generate_combined_grid svc cfg scene sid
                          (generate_combined_grid svc cfg scene sid st)))
           = map_of (files (generate_combined_grid svc cfg scene sid st))"
proof -
  let ?st' = "generate_combined_grid svc cfg scene sid st"
  have e: "exists_file ?st' (grid_path sid)"
    by (rule grid_exists_after [OF assms])
  show ?thesis
  proof (cases "slicing_enabled cfg")
    case False
    then show ?thesis
      using grid_exists_files [OF e, of svc cfg scene] grid_exists_files [OF assms, of svc cfg scene]
      by simp
  next
    case True
    let ?a = "if scene_references scene = [] then log_call (Identify sid) st else st"
    have st': "?st' = slice_to_disk cfg sid ?a"
      using True assms by (simp add: grid_exists_rerun Let_def)
    have "files (generate_combined_grid svc cfg scene sid ?st') = files (slice_to_disk cfg sid ?st')"
      using grid_exists_files [OF e, of svc cfg scene] True by simp
    then show ?thesis
      unfolding st' by (simp only: slice_to_disk_idem)
  qed
qed


lemma reference_registered:
  assumes "name char \<in> set (map fst (CHARACTER_IMAGES st))"
  shows "generate_single_reference svc char st = st"
  using assms by (simp add: generate_single_reference_def)

lemma reference_new:
  "\<exists>rs. calls (generate_single_reference svc char st) = calls st @ rs \<and>
        (\<forall>c \<in> set rs. c = ReferenceImage (name char) \<and>
                        name char \<notin> set (map fst (CHARACTER_IMAGES st))) \<and>
        set (map fst (CHARACTER_IMAGES st))
          \<subseteq> set (map fst (CHARACTER_IMAGES (generate_single_reference svc char st)))"
proof (cases "name char \<in> set (map fst (CHARACTER_IMAGES st))")
  case True
  then show ?thesis by (simp add: generate_single_reference_def)
next
  case False
  have "calls (generate_single_reference svc char st) = calls st @ [ReferenceImage (name char)]"
    using False
    by (simp add: generate_single_reference_def Let_def write_file_simps log_call_simps
        split: option.splits)
  moreover have "set (map fst (CHARACTER_IMAGES st))
          \<subseteq> set (map fst (CHARACTER_IMAGES (generate_single_reference svc char st)))"
    using False
    by (auto simp: generate_single_reference_def Let_def write_file_simps log_call_simps
        dom_update split: option.splits)
  ultimately show ?thesis
    using False by simp
qed

lemma references_fold:
  "\<exists>rs. calls (fold (generate_single_reference svc) chars st) = calls st @ rs \<and>
        (\<forall>c \<in> set rs. \<exists>n. c = ReferenceImage n \<and> n \<in> name ` set chars \<and>
                             n \<notin> set (map fst (CHARACTER_IMAGES st))) \<and>
        set (map fst (CHARACTER_IMAGES st))
          \<subseteq> set (map fst (CHARACTER_IMAGES (fold (generate_single_reference svc) chars st)))"
proof (induction chars arbitrary: st)
  case Nil
  then show ?case by simp
next
  case (Cons c cs)
  let ?st1 = "generate_single_reference svc c st"
  from reference_new [of svc c st] obtain r1 where
    a1: "calls ?st1 = calls st @ r1"
    and b1: "\<forall>x \<in> set r1. x = ReferenceImage (name c) \<and> name c \<notin> set (map fst (CHARACTER_IMAGES st))"
    and m1: "set (map fst (CHARACTER_IMAGES st)) \<subseteq> set (map fst (CHARACTER_IMAGES ?st1))"
    by blast
  from Cons [of ?st1] obtain r2 where
    a2: "calls (fold (generate_single_reference svc) cs ?st1) = calls ?st1 @ r2"
    and b2: "\<forall>x \<in> set r2. \<exists>n. x = ReferenceImage n \<and> n \<in> name ` set cs \<and>
                             n \<notin> set (map fst (CHARACTER_IMAGES ?st1))"
    and m2: "set (map fst (CHARACTER_IMAGES ?st1))
          \<subseteq> set (map fst (CHARACTER_IMAGES (fold (generate_single_reference svc) cs ?st1)))"
    by blast
  have "calls (fold (generate_single_reference svc) (c # cs) st) = calls st @ (r1 @ r2)"
    using a1 a2 by simp
  moreover have "\<forall>x \<in> set (r1 @ r2). \<exists>n. x = ReferenceImage n \<and> n \<in> name ` set (c # cs) \<and>
                             n \<notin> set (map fst (CHARACTER_IMAGES st))"
  proof
    fix x assume "x \<in> set (r1 @ r2)"
    then consider "x \<in> set r1" | "x \<in> set r2" by auto
    then show "\<exists>n. x = ReferenceImage n \<and> n \<in> name ` set (c # cs) \<and>
                             n \<notin> set (map fst (CHARACTER_IMAGES st))"
    proof cases
      case 1
      then show ?thesis using b1 by auto
    next
      case 2
      with b2 obtain n where n: "x = ReferenceImage n" "n \<in> name ` set cs"
          "n \<notin> set (map fst (CHARACTER_IMAGES ?st1))"
        by blast
      then have "n \<notin> set (map fst (CHARACTER_IMAGES st))"
        using m1 by blast
      then show ?thesis using n by auto
    qed
  qed
  moreover have "set (map fst (CHARACTER_IMAGES st))
          \<subseteq> set (map fst (CHARACTER_IMAGES (fold (generate_single_reference svc) (c # cs) st)))"
    using m1 m2 by simp
  ultimately show ?case by blast
qed

lemma references_fold_registered:
  assumes "\<forall>c \<in> set chars. name c \<in> set (map fst (CHARACTER_IMAGES st))"
  shows "fold (generate_single_reference svc) chars st = st"
  using assms by (induction chars) (simp_all add: reference_registered)

lemma auto_cast_disabled:
  assumes "\<not> casting_enabled cfg"
  shows "auto_cast_characters svc cfg text st
           = st\<lparr>CHARACTER_IMAGES := load_existing (files st) (CHARACTER_IMAGES st)\<rparr>"
  using assms by (simp add: auto_cast_characters_def)

lemma auto_cast_calls:
  assumes "casting_enabled cfg"
  shows "\<exists>rs. calls (auto_cast_characters svc cfg text st) = calls st @ Casting # rs \<and>
          (\<forall>c \<in> set rs. \<exists>n. c = ReferenceImage n \<and>
             n \<notin> set (map fst (load_existing (files st) (CHARACTER_IMAGES st))))"
proof -
  let ?st1 = "st\<lparr>CHARACTER_IMAGES := load_existing (files st) (CHARACTER_IMAGES st)\<rparr>"
  let ?st2 = "log_call Casting ?st1"
  let ?new = "casting svc text (map fst (CHARACTER_IMAGES ?st1))"
  have ac: "auto_cast_characters svc cfg text st = fold (generate_single_reference svc) ?new ?st2"
    using assms by (simp add: auto_cast_characters_def Let_def)
  from references_fold [of svc ?new ?st2] obtain rs where
    a: "calls (fold (generate_single_reference svc) ?new ?st2) = calls ?st2 @ rs"
    and b: "\<forall>c \<in> set rs. \<exists>n. c = ReferenceImage n \<and> n \<in> name ` set ?new \<and>
                             n \<notin> set (map fst (CHARACTER_IMAGES ?st2))"
    by blast
  have "calls (auto_cast_characters svc cfg text st) = calls st @ Casting # rs"
    unfolding ac a by (simp add: log_call_simps)
  moreover have "\<forall>c \<in> set rs. \<exists>n. c = ReferenceImage n \<and>
             n \<notin> set (map fst (load_existing (files st) (CHARACTER_IMAGES st)))"
    using b by (auto simp: log_call_simps)
  ultimately show ?thesis by blast
qed

lemma auto_cast_registered:
  assumes "casting_enabled cfg"
    and "\<forall>c \<in> set (casting svc text (map fst (load_existing (files st) (CHARACTER_IMAGES st)))).
           name c \<in> set (map fst (load_existing (files st) (CHARACTER_IMAGES st)))"
  shows "calls (auto_cast_characters svc cfg text st) = calls st @ [Casting] \<and>
         files (auto_cast_characters svc cfg text st) = files st"
proof -
  let ?st1 = "st\<lparr>CHARACTER_IMAGES := load_existing (files st) (CHARACTER_IMAGES st)\<rparr>"
  let ?st2 = "log_call Casting ?st1"
  let ?new = "casting svc text (map fst (CHARACTER_IMAGES ?st1))"
  have ac: "auto_cast_characters svc cfg text st = fold (generate_single_reference svc) ?new ?st2"
    using assms(1) by (simp add: auto_cast_characters_def Let_def)
  have "\<forall>c \<in> set ?new. name c \<in> set (map fst (CHARACTER_IMAGES ?st2))"
    using assms(2) by (simp add: log_call_simps)
  then have "fold (generate_single_reference svc) ?new ?st2 = ?st2"
    by (rule references_fold_registered)
  then show ?thesis
    unfolding ac by (simp add: log_call_simps)
qed

text \<open>
  Claim C7, as the code has it. (1) Grid rendering of a scene whose composite file
  exists issues no image-generation call: the only call it can issue is the
  identification call of the text service, issued exactly when the panels of the
  scene name no reference. It leaves the composite as it is, and slicing it again
  writes the same panel files, so that a further re-run changes no file. (2)
  \<open>generate_single_reference\<close> does nothing at all for an identity whose name is a key
  of the registry. (3) Auto-casting with casting enabled issues the casting call on
  every run, and after it reference-generation calls only for names that are no key
  of the registry as loaded from the images on disk; (4) when every identity that the
  casting service returns is such a key, the casting call is its only call and it
  writes no file; (5) with casting disabled it issues no call and writes no file.
\<close>

theorem rerun_skips_generation:
  "(exists_file st (grid_path sid) \<longrightarrow>
      calls (generate_combined_grid svc cfg scene sid st)
        = calls st @ (if scene_references scene = [] then [Identify sid] else []) \<and>
      map_of (files (generate_combined_grid svc cfg scene sid st)) (grid_path sid)
        = map_of (files st) (grid_path sid) \<and>
      map_of (files (generate_combined_grid svc cfg scene sid
                       (generate_combined_grid svc cfg scene sid st)))
        = map_of (files (generate_combined_grid svc cfg scene sid st))) \<and>
   (name char \<in> set (map fst (CHARACTER_IMAGES st)) \<longrightarrow>
      generate_single_reference svc char st = st) \<and>
   (casting_enabled cfg \<longrightarrow>
      (\<exists>rs. calls (auto_cast_characters svc cfg text st) = calls st @ Casting # rs \<and>
         (\<forall>c \<in> set rs. \<exists>n. c = ReferenceImage n \<and>
            n \<notin> set (map fst (load_existing (files st) (CHARACTER_IMAGES st)))))) \<and>
   (casting_enabled cfg \<and>
    (\<forall>c \<in> set (casting svc text (map fst (load_existing (files st) (CHARACTER_IMAGES st)))).
       name c \<in> set (map fst (load_existing (files st) (CHARACTER_IMAGES st)))) \<longrightarrow>
      calls (auto_cast_characters svc cfg text st) = calls st @ [Casting] \<and>
      files (auto_cast_characters svc cfg text st) = files st) \<and>
   (\<not> casting_enabled cfg \<longrightarrow>
      calls (auto_cast_characters svc cfg text st) = calls st \<and>
      files (auto_cast_characters svc cfg text st) = files st)"
proof (intro conjI impI)
  assume e: "exists_file st (grid_path sid)"
  show "calls (generate_combined_grid svc cfg scene sid st)
        = calls st @ (if scene_references scene = [] then [Identify sid] else [])"
    by (rule grid_exists_calls [OF e])
  show "map_of (files (generate_combined_grid svc cfg scene sid st)) (grid_path sid)
        = map_of (files st) (grid_path sid)"
    by (rule grid_exists_composite [OF e])
  show "map_of (files (generate_combined_grid svc cfg scene sid
                       (generate_combined_grid svc cfg scene sid st)))
        = map_of (files (generate_combined_grid svc cfg scene sid st))"
    by (rule grid_exists_idem [OF e])
next
  assume "name char \<in> set (map fst (CHARACTER_IMAGES st))"
  then show "generate_single_reference svc char st = st"
    by (rule reference_registered)
next
  assume "casting_enabled cfg"
  then show "\<exists>rs. calls (auto_cast_characters svc cfg text st) = calls st @ Casting # rs \<and>
         (\<forall>c \<in> set rs. \<exists>n. c = ReferenceImage n \<and>
            n \<notin> set (map fst (load_existing (files st) (CHARACTER_IMAGES st))))"
    by (rule auto_cast_calls)
next
  assume a: "casting_enabled cfg \<and>
    (\<forall>c \<in> set (casting svc text (map fst (load_existing (files st) (CHARACTER_IMAGES st)))).
       name c \<in> set (map fst (load_existing (files st) (CHARACTER_IMAGES st))))"
  then have "calls (auto_cast_characters svc cfg text st) = calls st @ [Casting] \<and>
      files (auto_cast_characters svc cfg text st) = files st"
    by (intro auto_cast_registered) blast+
  then show "calls (auto_cast_characters svc cfg text st) = calls st @ [Casting]"
    and "files (auto_cast_characters svc cfg text st) = files st"
    by blast+
next
  assume "\<not> casting_enabled cfg"
  then show "calls (auto_cast_characters svc cfg text st) = calls st"
    and "files (auto_cast_characters svc cfg text st) = files st"
    by (simp_all add: auto_cast_disabled)
qed

text \<open>The theorem at the state that the first run leaves behind.\<close>

theorem rerun_skips_generation_witness:
  "exists_file first_run (grid_path 1) \<and>
   name eckels \<in> set (map fst (CHARACTER_IMAGES first_run)) \<and>
   casting_enabled stub_config \<and>
   calls (generate_combined_grid stub_services stub_config scenario_d 1 first_run)
     = calls first_run @ [Identify 1] \<and>
   generate_single_reference stub_services eckels first_run = first_run \<and>
   calls (auto_cast_characters stub_services stub_config (RawText ''story'') first_run)
     = calls first_run @ [Casting] \<and>
   files (auto_cast_characters stub_services stub_config (RawText ''story'') first_run)
     = files first_run"
proof -
  have h1: "exists_file first_run (grid_path 1)"
    by code_simp
  have h2: "name eckels \<in> set (map fst (CHARACTER_IMAGES first_run))"
    by code_simp
  have h3: "casting_enabled stub_config"
    by (simp add: stub_config_def)
  have h4: "\<forall>c \<in> set (casting stub_services (RawText ''story'')
                       (map fst (load_existing (files first_run) (CHARACTER_IMAGES first_run)))).
       name c \<in> set (map fst (load_existing (files first_run) (CHARACTER_IMAGES first_run)))"
    by code_simp
  have h5: "scene_references scenario_d = []"
    by code_simp
  note inst = rerun_skips_generation [of first_run 1 stub_services stub_config scenario_d eckels
      "RawText ''story''"]
  from inst h1 h5 have a: "calls (generate_combined_grid stub_services stub_config scenario_d 1 first_run)
     = calls first_run @ [Identify 1]"
    by simp
  from inst h2 have b: "generate_single_reference stub_services eckels first_run = first_run"
    by blast
  from inst h3 h4 have c: "calls (auto_cast_characters stub_services stub_config (RawText ''story'') first_run)
     = calls first_run @ [Casting] \<and>
   files (auto_cast_characters stub_services stub_config (RawText ''story'') first_run)
     = files first_run"
    by blast
  show ?thesis
    using h1 h2 h3 a b c by (intro conjI) (erule conjE | assumption)+
qed

text \<open>
  Against claim C7 as stated: in a new process on the disk that the first run left
  behind, with the image of the one identity and the composite of the scene in place,
  auto-casting calls the casting service and grid rendering calls the text service.
\<close>

theorem rerun_service_calls_counterexample:
  "exists_file (new_process first_run) (RefPng ''eckels'') \<and>
   exists_file (new_process first_run) (grid_path 1) \<and>
   calls (new_process first_run) = [] \<and>
   calls (auto_cast_characters stub_services stub_config (RawText ''story'') (new_process first_run))
     = [Casting] \<and>
   calls (generate_combined_grid stub_services stub_config scenario_d 1 (new_process first_run))
     = [Identify 1]"
  by code_simp

section \<open>Properties of a run without episodes\<close>

lemma auto_cast_calls_any:
  "\<exists>rs. calls (auto_cast_characters svc cfg text st)
           = calls st @ (if casting_enabled cfg then Casting # rs else []) \<and>
        (\<forall>c \<in> set rs. \<exists>n. c = ReferenceImage n)"
proof (cases "casting_enabled cfg")
  case True
  from auto_cast_calls [OF True, of svc "text" st] obtain rs where
    "calls (auto_cast_characters svc cfg text st) = calls st @ Casting # rs"
    "\<forall>c \<in> set rs. \<exists>n. c = ReferenceImage n \<and>
             n \<notin> set (map fst (load_existing (files st) (CHARACTER_IMAGES st)))"
    by blast
  then show ?thesis using True by auto
next
  case False
  then have "calls (auto_cast_characters svc cfg text st)
           = calls st @ (if casting_enabled cfg then Casting # [] else []) \<and>
        (\<forall>c \<in> set ([] :: call list). \<exists>n. c = ReferenceImage n)"
    by (simp add: auto_cast_disabled)
  then show ?thesis by (rule exI)
qed

lemma master_zero_episodes:
  assumes "screenplay svc text = Some []" and "analysis_order [] = []" and "refinement_order [] = []"
  shows "analyze_scenes_master svc cfg analysis_order refinement_order text st =
           (Inr [],
            write_file (OutFile ''animation_episodes.json'') (EpisodesDoc (Some []))
              (auto_cast_characters svc cfg (ScreenplayText (Some [])) (log_call Screenplay st)))"
  using assms by (simp add: analyze_scenes_master_def Let_def number_scenes_def)

lemma main_zero_episodes_eq:
  assumes "screenplay svc text = Some []" and "analysis_order [] = []" and "refinement_order [] = []"
  shows "main svc cfg analysis_order refinement_order text st =
           (Inr (),
            write_file (OutFile ''animation_metadata.json'') (ScenesDoc [])
              (write_file (OutFile ''animation_episodes.json'') (EpisodesDoc (Some []))
                 (auto_cast_characters svc cfg (ScreenplayText (Some []))
                    (log_call Screenplay (auto_cast_characters svc cfg (RawText text) st)))))"
  using assms
    master_zero_episodes [of svc "text" analysis_order refinement_order cfg
      "auto_cast_characters svc cfg (RawText text) st"]
  by (simp add: main_def Let_def)

text \<open>
  Claim C9, as the code has it. Let the decomposition return an empty list of
  episodes (and let a pool without tasks append nothing). Then the run does not halt:
  \<open>main\<close> returns normally, having written the screenplay file and a metadata file
  with an empty list of scenes. The casting over the raw text and the casting over the
  decomposed output both run, the second right after the screenplay call when casting
  is enabled, and beside the screenplay call the run makes casting and
  reference-generation calls only: no scene analysis, refinement, reversal,
  identification or grid rendering call is issued.
\<close>

theorem main_zero_episodes:
  assumes "screenplay svc text = Some []" and "analysis_order [] = []" and "refinement_order [] = []"
  shows "fst (main svc cfg analysis_order refinement_order text st) = Inr () \<and>
         map_of (files (snd (main svc cfg analysis_order refinement_order text st)))
           (OutFile ''animation_metadata.json'') = Some (ScenesDoc []) \<and>
         map_of (files (snd (main svc cfg analysis_order refinement_order text st)))
           (OutFile ''animation_episodes.json'') = Some (EpisodesDoc (Some [])) \<and>
         calls (snd (main svc cfg analysis_order refinement_order text st))
           = calls (auto_cast_characters svc cfg (ScreenplayText (Some []))
                      (log_call Screenplay (auto_cast_characters svc cfg (RawText text) st))) \<and>
         (\<exists>before after.
            calls (snd (main svc cfg analysis_order refinement_order text st))
              = calls st @ before @ Screenplay # after \<and>
            (\<forall>c \<in> set (before @ after). c = Casting \<or> (\<exists>n. c = ReferenceImage n)) \<and>
            (casting_enabled cfg \<longrightarrow> (\<exists>rs. after = Casting # rs)))"
proof -
  let ?st1 = "auto_cast_characters svc cfg (RawText text) st"
  let ?st2 = "auto_cast_characters svc cfg (ScreenplayText (Some [])) (log_call Screenplay ?st1)"
  have m: "main svc cfg analysis_order refinement_order text st =
           (Inr (),
            write_file (OutFile ''animation_metadata.json'') (ScenesDoc [])
              (write_file (OutFile ''animation_episodes.json'') (EpisodesDoc (Some []))
                 (auto_cast_characters svc cfg (ScreenplayText (Some []))
                    (log_call Screenplay (auto_cast_characters svc cfg (RawText text) st)))))"
    using assms main_zero_episodes_eq [of svc "text" analysis_order refinement_order cfg st]
    by blast
  from auto_cast_calls_any [of svc cfg "RawText text" st] obtain r1 where
    c1: "calls ?st1 = calls st @ (if casting_enabled cfg then Casting # r1 else [])"
    and a1: "\<forall>c \<in> set r1. \<exists>n. c = ReferenceImage n"
    by blast
  from auto_cast_calls_any [of svc cfg "ScreenplayText (Some [])" "log_call Screenplay ?st1"]
  obtain r2 where
    c2: "calls ?st2 = calls (log_call Screenplay ?st1) @ (if casting_enabled cfg then Casting # r2 else [])"
    and a2: "\<forall>c \<in> set r2. \<exists>n. c = ReferenceImage n"
    by blast
  let ?before = "if casting_enabled cfg then Casting # r1 else []"
  let ?after = "if casting_enabled cfg then Casting # r2 else []"
  have calls: "calls (snd (main svc cfg analysis_order refinement_order text st)) = calls ?st2"
    unfolding m by (simp add: write_file_simps)
  have shape: "calls ?st2 = calls st @ ?before @ Screenplay # ?after"
    unfolding c2 by (simp add: log_call_simps c1)
  have all: "\<forall>c \<in> set (?before @ ?after). c = Casting \<or> (\<exists>n. c = ReferenceImage n)"
    using a1 a2 by auto
  have cast: "casting_enabled cfg \<longrightarrow> (\<exists>rs. ?after = Casting # rs)"
    by simp
  have ex: "\<exists>before after.
            calls (snd (main svc cfg analysis_order refinement_order text st))
              = calls st @ before @ Screenplay # after \<and>
            (\<forall>c \<in> set (before @ after). c = Casting \<or> (\<exists>n. c = ReferenceImage n)) \<and>
            (casting_enabled cfg \<longrightarrow> (\<exists>rs. after = Casting # rs))"
    apply (rule exI [of _ ?before])
    apply (rule exI [of _ ?after])
    using calls shape all cast
    apply (intro conjI)
    apply simp_all
    done
  have r: "fst (main svc cfg analysis_order refinement_order text st) = Inr ()"
    unfolding m by simp
  have f1: "map_of (files (snd (main svc cfg analysis_order refinement_order text st)))
           (OutFile ''animation_metadata.json'') = Some (ScenesDoc [])"
    unfolding m by (simp add: write_file_simps)
  have f2: "map_of (files (snd (main svc cfg analysis_order refinement_order text st)))
           (OutFile ''animation_episodes.json'') = Some (EpisodesDoc (Some []))"
    unfolding m by (simp add: write_file_simps)
  show ?thesis
    using r f1 f2 calls ex by (intro conjI)
qed

text \<open>The theorem at the stub services, whose screenplay has no episode.\<close>

theorem main_zero_episodes_witness:
  "screenplay stub_services ''story'' = Some [] \<and>
   fst (main stub_services stub_config (\<lambda>xs. xs) (\<lambda>xs. xs) ''story'' first_run) = Inr () \<and>
   map_of (files (snd (main stub_services stub_config (\<lambda>xs. xs) (\<lambda>xs. xs) ''story'' first_run)))
     (OutFile ''animation_metadata.json'') = Some (ScenesDoc [])"
proof -
  have h: "screenplay stub_services ''story'' = Some []"
    by (simp add: stub_services_def)
  from main_zero_episodes [of stub_services "''story''" "\<lambda>xs. xs" "\<lambda>xs. xs" stub_config first_run] h
  have "fst (main stub_services stub_config (\<lambda>xs. xs) (\<lambda>xs. xs) ''story'' first_run) = Inr () \<and>
   map_of (files (snd (main stub_services stub_config (\<lambda>xs. xs) (\<lambda>xs. xs) ''story'' first_run)))
     (OutFile ''animation_metadata.json'') = Some (ScenesDoc [])"
    by simp
  then show ?thesis
    using h by simp
qed

text \<open>
  Against claim C9 as stated: with a screenplay of zero episodes the run on an empty
  disk ends normally, the casting over the decomposed output has run (the call after
  the screenplay call), and the metadata file holds an empty list of scenes.
\<close>

theorem main_zero_episodes_counterexample:
  "screenplay stub_services ''story'' = Some [] \<and>
   fst (main stub_services stub_config (\<lambda>xs. xs) (\<lambda>xs. xs) ''story'' empty_disk) = Inr () \<and>
   calls (snd (main stub_services stub_config (\<lambda>xs. xs) (\<lambda>xs. xs) ''story'' empty_disk))
     = [Casting, ReferenceImage ''Eckels'', Screenplay, Casting] \<and>
   map_of (files (snd (main stub_services stub_config (\<lambda>xs. xs) (\<lambda>xs. xs) ''story'' empty_disk)))
     (OutFile ''animation_metadata.json'') = Some (ScenesDoc [])"
  by code_simp

section \<open>Scene numbering in the master analysis\<close>

text \<open>
  A screenplay of two episodes, each analysed into one scene, with a refinement
  service that returns every draft as it is; and the same with a refinement service
  whose answer for scene 1 holds no scene, as the empty dict of a failed call does.
\<close>

definition two_episodes :: "episode list" where
  "two_episodes =
     [\<lparr>episode_id = 1, ep_location = ''office'', daytime = ''day'',
       raw_narrative = ''The sign on the wall'', screenplay_instructions = ''INT. OFFICE''\<rparr>,
      \<lparr>episode_id = 2, ep_location = ''jungle'', daytime = ''dawn'',
       raw_narrative = ''The jungle was high'', screenplay_instructions = ''EXT. JUNGLE''\<rparr>]"

definition two_episode_services :: services where
  "two_episode_services =
     stub_services\<lparr>screenplay := (\<lambda>text. Some two_episodes),
                   scene_analysis := (\<lambda>episode_counter ep. [scenario_d])\<rparr>"

definition failing_refinement :: services where
  "failing_refinement =
     two_episode_services\<lparr>refinement := (\<lambda>sid draft. if sid = 1 then [] else [draft])\<rparr>"

text \<open>
  Claim C2, at an input where the code breaks it. The sequential pass numbers the two
  drafts 1 and 2 in the order of their episodes. The refinement task of scene 1 takes
  element 0 of an empty list: the \<open>IndexError\<close> ends the task, nobody reads the results
  of the pool, and scene 1 is never appended. The final output holds the one scene
  with \<open>scene_id\<close> 2, in whatever order the tasks complete, where the claim has the
  ids 1 to N: here N is 1. With the refinement service that answers every draft, the
  ids are 1 and 2, also when the tasks complete in reverse order. Both refinement
  calls were made.
\<close>

theorem analyze_scenes_master_gap:
  "refinement failing_refinement 1 scenario_d = [] \<and>
   map_sum id (map scene_id)
     (fst (analyze_scenes_master failing_refinement stub_config (\<lambda>xs. xs) (\<lambda>xs. xs)
             ''story'' empty_disk)) = Inr [2] \<and>
   map_sum id (map scene_id)
     (fst (analyze_scenes_master failing_refinement stub_config rev rev
             ''story'' empty_disk)) = Inr [2] \<and>
   map_sum id (map scene_id)
     (fst (analyze_scenes_master two_episode_services stub_config rev rev
             ''story'' empty_disk)) = Inr [1, 2] \<and>
   calls (snd (analyze_scenes_master failing_refinement stub_config (\<lambda>xs. xs) (\<lambda>xs. xs)
                 ''story'' empty_disk))
     = [Screenplay, Casting, ReferenceImage ''Eckels'', SceneAnalysis 1, SceneAnalysis 2,
        Refinement 1, Refinement 2]"
  by code_simp

end
